theory Spec2Isabelle
  imports
    Complex_Main
    "HOL-Library.Multiset"
    "HOL-Library.AList"
    "HOL-Library.Char_ord"
    "HOL-Library.List_Lexorder"
begin

section \<open>Python values shared by the modules\<close>

text \<open>
  The exceptions the modelled functions raise. \<open>ValueError\<close> is what
  \<open>save_annotation\<close> and \<open>train_model\<close> raise for an ineligible request,
  \<open>FileNotFoundError\<close> is raised by \<open>restore_version\<close>, \<open>TrainingCancelled\<close> is the
  exception class of trainer.py, and \<open>RuntimeError\<close> stands for any other exception that
  the tensor library or the file system throws inside a fold. \<open>IsADirectoryError\<close> and
  \<open>NotADirectoryError\<close> are what \<open>open\<close> raises on a directory and on a path that
  goes through a file, \<open>SameFileError\<close> is what \<open>shutil.copy2\<close> raises when source and
  destination are one file.
\<close>

datatype py_exception =
    ValueError
  | IndexError
  | ZeroDivisionError
  | FileNotFoundError
  | TrainingCancelled
  | RuntimeError
  | IsADirectoryError
  | NotADirectoryError
  | SameFileError

text \<open>
  Python list indexing \<open>xs[i]\<close>: a negative index counts from the end, an index outside
  \<open>-len(xs) .. len(xs) - 1\<close> raises IndexError.
\<close>

definition py_index :: "'a list \<Rightarrow> int \<Rightarrow> py_exception + 'a" where
  "py_index xs i =
     (if 0 \<le> i \<and> i < int (length xs) then Inr (xs ! nat i)
      else if i < 0 \<and> - int (length xs) \<le> i then Inr (xs ! nat (int (length xs) + i))
      else Inl IndexError)"

text \<open>
  Scores and losses are Python floats. A float is a rational number, and floats are
  compared exactly, so they are values of type \<open>rat\<close> here. Float arithmetic rounds its
  results; the one place where the code computes with scores, the mean of the fold
  scores, is a function that the model takes as a parameter (\<open>float_mean\<close> and \<open>np_mean\<close>
  below). \<open>round6\<close> is \<open>round(x, 6)\<close>: the nearest multiple of \<open>10^-6\<close>, an exact
  tie going to the even neighbour (Python returns the float next to that multiple, which
  prints as it).
\<close>

definition round6 :: "rat \<Rightarrow> rat" where
  "round6 x =
     (let y = x * 1000000; f = \<lfloor>y\<rfloor>; d = y - of_int f
      in of_int (if d < 1 / 2 then f
                 else if 1 / 2 < d then f + 1
                 else if even f then f else f + 1) / 1000000)"


section \<open>Paths (os.path on a POSIX system)\<close>

text \<open>
  \<open>os.path.join(DIR, rel)\<close> is \<open>rel\<close> itself when \<open>rel\<close> starts with a slash, and
  \<open>DIR/rel\<close> otherwise. The system looks \<open>DIR/rel\<close> up from \<open>DIR\<close>, one component of
  \<open>rel\<close> after the other: an empty component and \<open>.\<close> stay in the directory, \<open>..\<close>
  goes to its parent, any other name to the entry of that name. \<open>split_slash\<close> is
  \<open>rel.split("/")\<close>. There are no symbolic links.
\<close>

fun split_slash :: "string \<Rightarrow> string list" where
  "split_slash [] = [[]]"
| "split_slash (c # cs) =
     (if c = CHR ''/'' then [] # split_slash cs
      else (case split_slash cs of
              [] \<Rightarrow> [[c]]
            | x # xs \<Rightarrow> (c # x) # xs))"

definition is_absolute :: "string \<Rightarrow> bool" where
  "is_absolute rel = (case rel of [] \<Rightarrow> False | c # cs \<Rightarrow> c = CHR ''/'')"

text \<open>
  A name that is one entry of a directory: not empty, without a slash or a NUL
  character, and neither \<open>.\<close> nor \<open>..\<close>.
\<close>

definition plain_name :: "string \<Rightarrow> bool" where
  "plain_name name \<longleftrightarrow>
     name \<noteq> [] \<and> name \<noteq> ''.'' \<and> name \<noteq> ''..'' \<and>
     CHR ''/'' \<notin> set name \<and> CHR 0x00 \<notin> set name"





section \<open>Data partition manager (data\_manager.py)\<close>

text \<open>
  A directory is the list of its entries as \<open>os.listdir\<close> returns them, each a file name
  with the file's bytes. The four directories of config.py are the four fields of the
  store; config.py creates them at import, so each exists, and they hold files only.
\<close>

type_synonym directory = "(string \<times> string) list"

record data_store =
  completed_images :: directory
  completed_annotations :: directory
  unannotated_images :: directory
  unannotated_annotations :: directory

definition listdir :: "directory \<Rightarrow> string list" where
  "listdir d = map fst d"


text \<open>A directory of the file system holds each name once.\<close>

definition wf_directory :: "directory \<Rightarrow> bool" where
  "wf_directory d \<longleftrightarrow> distinct (listdir d)"

definition wf_store :: "data_store \<Rightarrow> bool" where
  "wf_store st \<longleftrightarrow>
     wf_directory (completed_images st) \<and> wf_directory (completed_annotations st) \<and>
     wf_directory (unannotated_images st) \<and> wf_directory (unannotated_annotations st)"

text \<open>\<open>f.lower()\<close> on the ASCII letters, which is all \<open>endswith(".png")\<close> can see.\<close>

definition lower_char :: "char \<Rightarrow> char" where
  "lower_char c =
     (if CHR ''A'' \<le> c \<and> c \<le> CHR ''Z'' then char_of (of_char c + (32::nat)) else c)"

definition endswith :: "string \<Rightarrow> string \<Rightarrow> bool" where
  "endswith s suffix \<longleftrightarrow>
     length suffix \<le> length s \<and> drop (length s - length suffix) s = suffix"

definition list_png :: "directory \<Rightarrow> string list" where
  "list_png d = filter (\<lambda>f. endswith (map lower_char f) ''.png'') (listdir d)"

definition path_join :: "string \<Rightarrow> string \<Rightarrow> string" where
  "path_join dir name = dir @ ''/'' @ name"

definition COMPLETED_IMAGES_DIR :: string where
  "COMPLETED_IMAGES_DIR = ''data/images_completed/images''"

definition COMPLETED_ANNOTATIONS_DIR :: string where
  "COMPLETED_ANNOTATIONS_DIR = ''data/images_completed/annotations''"

definition UNANNOTATED_IMAGES_DIR :: string where
  "UNANNOTATED_IMAGES_DIR = ''data/images_unannotated/images''"

definition UNANNOTATED_ANNOTATIONS_DIR :: string where
  "UNANNOTATED_ANNOTATIONS_DIR = ''data/images_unannotated/annotations''"

text \<open>
  The tree under \<open>DATA_DIR\<close> as config.py lays it out: the partitions
  \<open>images_completed\<close> and \<open>images_unannotated\<close>, each with the areas \<open>images\<close> and
  \<open>annotations\<close>, and the files of the four areas.
\<close>

datatype partition = Completed | Unannotated

datatype area = Images | Annotations

datatype data_node =
    Data_dir
  | Partition_dir partition
  | Area_dir partition area
  | File_in partition area string

definition area_dir :: "data_store \<Rightarrow> partition \<Rightarrow> area \<Rightarrow> directory" where
  "area_dir st p a =
     (case p of
        Completed \<Rightarrow>
          (case a of Images \<Rightarrow> completed_images st
                   | Annotations \<Rightarrow> completed_annotations st)
      | Unannotated \<Rightarrow>
          (case a of Images \<Rightarrow> unannotated_images st
                   | Annotations \<Rightarrow> unannotated_annotations st))"


text \<open>
  Where the lookup of a path stands after some of its components: at a node of the
  tree; at a name that an area does not hold (\<open>No_entry\<close>, the path exists no more, but
  a file can be created there); failed, with the error of the system call (a component
  after a file is ENOTDIR, one after a missing name ENOENT); or outside the tree
  (\<open>Left_tree\<close>: above \<open>DATA_DIR\<close>, or at an entry that is none of the store's).
\<close>

datatype data_lookup =
    At data_node
  | No_entry partition area string
  | Lookup_failed py_exception
  | Left_tree

fun data_step :: "data_store \<Rightarrow> data_lookup \<Rightarrow> string \<Rightarrow> data_lookup" where
  "data_step st (At (File_in p a name)) c = Lookup_failed NotADirectoryError"
| "data_step st (No_entry p a name) c = Lookup_failed FileNotFoundError"
| "data_step st (Lookup_failed e) c = Lookup_failed e"
| "data_step st Left_tree c = Left_tree"
| "data_step st (At Data_dir) c =
     (if c = [] \<or> c = ''.'' then At Data_dir
      else if c = ''images_completed'' then At (Partition_dir Completed)
      else if c = ''images_unannotated'' then At (Partition_dir Unannotated)
      else Left_tree)"
| "data_step st (At (Partition_dir p)) c =
     (if c = [] \<or> c = ''.'' then At (Partition_dir p)
      else if c = ''..'' then At Data_dir
      else if c = ''images'' then At (Area_dir p Images)
      else if c = ''annotations'' then At (Area_dir p Annotations)
      else Left_tree)"
| "data_step st (At (Area_dir p a)) c =
     (if c = [] \<or> c = ''.'' then At (Area_dir p a)
      else if c = ''..'' then At (Partition_dir p)
      else if c \<in> set (listdir (area_dir st p a)) then At (File_in p a c)
      else No_entry p a c)"

text \<open>The lookup of \<open>os.path.join(DIR, rel)\<close>, \<open>DIR\<close> being the area \<open>a\<close> of partition \<open>p\<close>.\<close>

definition lookup_from :: "data_store \<Rightarrow> partition \<Rightarrow> area \<Rightarrow> string \<Rightarrow> data_lookup" where
  "lookup_from st p a rel =
     (if is_absolute rel then Left_tree
      else foldl (data_step st) (At (Area_dir p a)) (split_slash rel))"


text \<open>
  \<open>validate_image_id\<close> of main.py, which the route that saves an annotation applies to
  the id before it calls \<open>save_annotation\<close>. \<open>re.match(r"^[\w\-\.]+\.png$", image_id)\<close>: \<open>$\<close> also matches before
  a final newline, so one trailing newline is dropped first. Of the characters above
  \<open>0x7F\<close> the pattern's \<open>\w\<close> admits some (the letters and digits of Unicode); here
  all of them count as word characters, so the model admits every id the pattern admits.
\<close>

definition word_char :: "char \<Rightarrow> bool" where
  "word_char c \<longleftrightarrow>
     (CHR ''a'' \<le> c \<and> c \<le> CHR ''z'') \<or> (CHR ''A'' \<le> c \<and> c \<le> CHR ''Z'') \<or>
     (CHR ''0'' \<le> c \<and> c \<le> CHR ''9'') \<or> c = CHR ''_'' \<or> CHR 0x7F < c"

definition image_id_pattern :: "string \<Rightarrow> bool" where
  "image_id_pattern s =
     (let t = (if s \<noteq> [] \<and> last s = CHR 0x0A then butlast s else s)
      in 4 < length t \<and> drop (length t - 4) t = ''.png'' \<and>
         list_all (\<lambda>c. word_char c \<or> c = CHR ''-'' \<or> c = CHR ''.'') (take (length t - 4) t))"

fun two_dots_in :: "string \<Rightarrow> bool" where
  "two_dots_in (a # b # rest) = ((a = CHR ''.'' \<and> b = CHR ''.'') \<or> two_dots_in (b # rest))"
| "two_dots_in rest = False"

definition validate_image_id :: "string \<Rightarrow> bool" where
  "validate_image_id image_id =
     (if \<not> image_id_pattern image_id then False
      else if two_dots_in image_id \<or> CHR ''/'' \<in> set image_id \<or> CHR 0x5C \<in> set image_id
           then False
      else True)"

text \<open>\<open>DataManager.get_all_training_pairs\<close>: completed pairs first, then annotated inbox pairs.\<close>

definition get_all_training_pairs :: "data_store \<Rightarrow> (string \<times> string) list" where
  "get_all_training_pairs st =
     (let completed_annotations_set = set (list_png (completed_annotations st));
          pairs = map (\<lambda>fname. (path_join COMPLETED_IMAGES_DIR fname,
                                 path_join COMPLETED_ANNOTATIONS_DIR fname))
                    (filter (\<lambda>fname. fname \<in> completed_annotations_set)
                       (list_png (completed_images st)));
          unannotated_annotations_set = set (list_png (unannotated_annotations st))
      in pairs @
         map (\<lambda>fname. (path_join UNANNOTATED_IMAGES_DIR fname,
                        path_join UNANNOTATED_ANNOTATIONS_DIR fname))
           (filter (\<lambda>fname. fname \<in> unannotated_annotations_set)
              (list_png (unannotated_images st))))"

text \<open>\<open>DataManager.get_stats\<close>: the six counters of the returned dict.\<close>

record stats =
  st_completed_images :: int
  st_completed_annotations :: int
  st_unannotated_images :: int
  st_unannotated_labeled :: int
  st_unannotated_unlabeled :: int
  st_total_training_pairs :: int

definition get_stats :: "data_store \<Rightarrow> stats" where
  "get_stats st =
     (let completed_images_l = list_png (completed_images st);
          completed_annotations_l = list_png (completed_annotations st);
          unannotated_images_l = list_png (unannotated_images st);
          unannotated_annotations_l = list_png (unannotated_annotations st);
          unannotated_set = set unannotated_images_l;
          unannotated_labeled = filter (\<lambda>f. f \<in> unannotated_set) unannotated_annotations_l
      in \<lparr>st_completed_images = int (length completed_images_l),
          st_completed_annotations = int (length completed_annotations_l),
          st_unannotated_images = int (length unannotated_images_l),
          st_unannotated_labeled = int (length unannotated_labeled),
          st_unannotated_unlabeled =
            int (length unannotated_images_l) - int (length unannotated_labeled),
          st_total_training_pairs =
            int (length completed_annotations_l) + int (length unannotated_labeled)\<rparr>)"


section \<open>Fold assignment (trainer.py, \_make\_folds)\<close>

text \<open>
  The loop \<open>for i, pair in enumerate(all_pairs): folds[i % n_folds].append(pair)\<close>,
  with \<open>i\<close> the running index and \<open>folds\<close> the list of lists built so far.
\<close>

fun make_folds_loop :: "nat \<Rightarrow> nat \<Rightarrow> 'a list \<Rightarrow> 'a list list \<Rightarrow> 'a list list" where
  "make_folds_loop n i [] folds = folds"
| "make_folds_loop n i (pair # rest) folds =
     make_folds_loop n (Suc i) rest (folds[i mod n := folds ! (i mod n) @ [pair]])"

text \<open>
  \<open>_make_folds\<close>. With no pairs the loop body never runs. With pairs, \<open>i % 0\<close> raises
  ZeroDivisionError, and a negative fold count indexes the empty list \<open>folds\<close>.
\<close>

definition make_folds :: "'a list \<Rightarrow> int \<Rightarrow> py_exception + 'a list list" where
  "make_folds all_pairs n_folds =
     (if all_pairs = [] then Inr (replicate (nat n_folds) [])
      else if n_folds = 0 then Inl ZeroDivisionError
      else if n_folds < 0 then Inl IndexError
      else Inr (make_folds_loop (nat n_folds) 0 all_pairs (replicate (nat n_folds) [])))"

text \<open>Every fold holds \<open>i div n\<close> pairs, and the first \<open>i mod n\<close> folds one more.\<close>

definition balanced :: "nat \<Rightarrow> nat \<Rightarrow> 'a list list \<Rightarrow> bool" where
  "balanced n i folds \<longleftrightarrow>
     (\<forall>j<n. length (folds ! j) = i div n + (if j < i mod n then 1 else 0))"


section \<open>Version identifiers (version\_manager.py, get\_next\_version)\<close>

definition is_digit :: "char \<Rightarrow> bool" where
  "is_digit c \<longleftrightarrow> CHR ''0'' \<le> c \<and> c \<le> CHR ''9''"

definition digit_val :: "char \<Rightarrow> nat" where
  "digit_val c = of_char c - 48"

definition digit_char :: "nat \<Rightarrow> char" where
  "digit_char d = char_of (48 + d)"

text \<open>\<open>int(s)\<close> on a string of decimal digits.\<close>

definition int_of_digits :: "string \<Rightarrow> nat" where
  "int_of_digits s = foldl (\<lambda>acc c. 10 * acc + digit_val c) 0 s"

text \<open>The decimal digits of a number, as \<open>str(n)\<close> writes them.\<close>

fun digits_of :: "nat \<Rightarrow> string" where
  "digits_of n =
     (if n < 10 then [digit_char n] else digits_of (n div 10) @ [digit_char (n mod 10)])"

declare digits_of.simps [simp del]

text \<open>The format \<open>f"v{next_num:03d}"\<close>: zeros on the left up to three digits.\<close>

definition format_version :: "nat \<Rightarrow> string" where
  "format_version n =
     CHR ''v'' # replicate (3 - length (digits_of n)) CHR ''0'' @ digits_of n"

text \<open>
  \<open>re.match(r"^v(\d{3,})$", name)\<close>, returning group 1. \<open>$\<close> also matches before a
  final newline, so one trailing newline is dropped first. Names are ASCII here, so
  \<open>\d\<close> is \<open>0\<close> to \<open>9\<close>.
\<close>

definition match_version :: "string \<Rightarrow> string option" where
  "match_version name =
     (case name of
        [] \<Rightarrow> None
      | c # rest \<Rightarrow>
          if c \<noteq> CHR ''v'' then None
          else let ds = (if rest \<noteq> [] \<and> last rest = CHR 0x0A then butlast rest else rest)
               in if 3 \<le> length ds \<and> list_all is_digit ds then Some ds else None)"

text \<open>\<open>max(existing, default=0)\<close>.\<close>

definition max_default :: "nat list \<Rightarrow> nat \<Rightarrow> nat" where
  "max_default xs d = (case xs of [] \<Rightarrow> d | y # ys \<Rightarrow> fold max ys y)"

text \<open>The numbers of the version identifiers among the names of \<open>versions/\<close>.\<close>

definition existing_versions :: "string list \<Rightarrow> nat list" where
  "existing_versions names =
     List.map_filter (\<lambda>name. map_option int_of_digits (match_version name)) names"

definition get_next_version :: "string list \<Rightarrow> string" where
  "get_next_version names =
     (let next_num = max_default (existing_versions names) 0 + 1
      in format_version next_num)"

text \<open>The number an identifier carries, for stating what \<open>get_next_version\<close> returns.\<close>

definition version_number :: "string \<Rightarrow> nat option" where
  "version_number name = map_option int_of_digits (match_version name)"

text \<open>
  What strict increase over successive calls needs of the listings \<open>versions/\<close> shows at each
  call: versions may have been added or deleted in between, but the listing still holds a
  version numbered at least as high as the identifier the call before returned (the run
  that took the identifier has written its directory, and the newest one was not deleted).
\<close>

fun retained :: "string list list \<Rightarrow> bool" where
  "retained [] = True"
| "retained [names] = True"
| "retained (names # names' # rest) =
     (max_default (existing_versions names) 0 + 1 \<le> max_default (existing_versions names') 0
      \<and> retained (names' # rest))"


section \<open>Configuration (config.py)\<close>

definition N_FOLDS :: nat where
  "N_FOLDS = 5"

definition MIN_IMAGES_FOR_TRAINING :: nat where
  "MIN_IMAGES_FOR_TRAINING = 2"

definition ENCODER_NAME :: string where
  "ENCODER_NAME = ''resnet34''"

definition IMAGE_SIZE :: nat where
  "IMAGE_SIZE = 512"

definition BATCH_SIZE :: nat where
  "BATCH_SIZE = 4"

definition LEARNING_RATE :: rat where
  "LEARNING_RATE = 1 / 10000"

definition WEIGHT_DECAY :: rat where
  "WEIGHT_DECAY = 1 / 100000"


section \<open>Versioned artifact store (version\_manager.py)\<close>

text \<open>
  A checkpoint file as \<open>torch.save\<close> writes it in \<open>_train_single_fold\<close>; the tensor
  of parameters is left out.
\<close>

record checkpoint =
  ck_epoch :: int
  ck_best_dice :: rat
  ck_fold_idx :: nat

text \<open>The training log, field by field as \<open>create_version_log\<close> builds the dict.\<close>

record epoch_entry =
  ee_epoch :: int
  ee_train_loss :: rat
  ee_val_dice :: rat

record fold_entry =
  fe_fold_idx :: nat
  fe_train_count :: nat
  fe_val_count :: nat
  fe_best_dice :: rat
  fe_best_epoch :: int
  fe_epochs :: "epoch_entry list"

record results =
  rs_mean_dice :: rat
  rs_fold_dices :: "rat list"
  rs_best_fold_idx :: int
  rs_best_fold_dice :: rat

record hyperparameters =
  hp_encoder_name :: string
  hp_image_size :: nat
  hp_batch_size :: nat
  hp_learning_rate :: rat
  hp_weight_decay :: rat
  hp_max_epochs_per_fold :: int
  hp_n_folds :: nat

record dataset =
  ds_total_pairs :: nat
  ds_completed_pairs :: nat
  ds_unannotated_pairs :: nat

record version_log =
  vl_version :: string
  vl_started_at :: string
  vl_completed_at :: "string option"
  vl_status :: string
  vl_hyperparameters :: hyperparameters
  vl_dataset :: dataset
  vl_results :: "results option"
  vl_folds :: "fold_entry list"

text \<open>
  \<open>training_log.json\<close> on disk: a document \<open>json.load\<close> returns as the log, or bytes
  it rejects. A version directory holds the files \<open>fold_{i}.pt\<close> (by \<open>i\<close>),
  \<open>best.pt\<close> and the log, each present or not. The entries of \<open>versions/\<close> are
  directories.
\<close>

datatype log_file = Corrupt | Log version_log

record version_dir =
  vd_fold_files :: "int \<Rightarrow> checkpoint option"
  vd_best_file :: "checkpoint option"
  vd_log_file :: "log_file option"

definition empty_version_dir :: version_dir where
  "empty_version_dir =
     \<lparr>vd_fold_files = (\<lambda>i. None), vd_best_file = None, vd_log_file = None\<rparr>"

text \<open>
  The state of the server process and of its model directories: the global
  \<open>training_status\<close> dict and the cancel event of main.py, the directory \<open>versions/\<close>,
  the files \<open>fold_{i}.pt\<close> and \<open>best.pt\<close> of \<open>current_pt/\<close>, and the globals
  \<open>_models\<close> and \<open>_models_loaded\<close> of inference.py.
\<close>

record training_status =
  ts_status :: string
  ts_epoch :: int
  ts_max_epochs :: int
  ts_best_dice :: rat
  ts_current_fold :: nat
  ts_n_folds :: nat
  ts_started_at :: "string option"
  ts_completed_at :: "string option"
  ts_error :: "string option"
  ts_version :: "string option"

record server =
  training_status :: training_status
  training_cancel_event :: bool
  versions :: "(string \<times> version_dir) list"
  fold_files :: "int \<Rightarrow> checkpoint option"
  best_file :: "checkpoint option"
  models :: "checkpoint list"
  models_loaded :: bool

text \<open>\<open>inference.reload_model\<close>: drops the loaded ensemble.\<close>

definition reload_model :: "server \<Rightarrow> server" where
  "reload_model srv = srv\<lparr>models := [], models_loaded := False\<rparr>"

definition create_version_log ::
  "string \<Rightarrow> (string \<times> string) list \<Rightarrow> int \<Rightarrow> nat \<Rightarrow> nat \<Rightarrow> string \<Rightarrow> version_log" where
  "create_version_log version training_pairs max_epochs total_image_count unannotated_count now =
     \<lparr>vl_version = version,
      vl_started_at = now,
      vl_completed_at = None,
      vl_status = ''running'',
      vl_hyperparameters =
        \<lparr>hp_encoder_name = ENCODER_NAME, hp_image_size = IMAGE_SIZE,
         hp_batch_size = BATCH_SIZE, hp_learning_rate = LEARNING_RATE,
         hp_weight_decay = WEIGHT_DECAY, hp_max_epochs_per_fold = max_epochs,
         hp_n_folds = N_FOLDS\<rparr>,
      vl_dataset =
        \<lparr>ds_total_pairs = total_image_count, ds_completed_pairs = length training_pairs,
         ds_unannotated_pairs = unannotated_count\<rparr>,
      vl_results = None,
      vl_folds =
        map (\<lambda>i. \<lparr>fe_fold_idx = i, fe_train_count = 0, fe_val_count = 0, fe_best_dice = 0,
                   fe_best_epoch = 0, fe_epochs = []\<rparr>) [0..<N_FOLDS]\<rparr>"

text \<open>\<open>log["folds"][fold_idx]\<close> raises IndexError past the end of the list.\<close>

definition set_fold_split_info ::
  "version_log \<Rightarrow> nat \<Rightarrow> nat \<Rightarrow> nat \<Rightarrow> py_exception + version_log" where
  "set_fold_split_info vlog fold_idx train_count val_count =
     (if length (vl_folds vlog) \<le> fold_idx then Inl IndexError
      else Inr (vlog\<lparr>vl_folds := (vl_folds vlog)
                  [fold_idx := (vl_folds vlog ! fold_idx)
                     \<lparr>fe_train_count := train_count, fe_val_count := val_count\<rparr>]\<rparr>))"

definition record_epoch ::
  "version_log \<Rightarrow> nat \<Rightarrow> int \<Rightarrow> rat \<Rightarrow> rat \<Rightarrow> py_exception + version_log" where
  "record_epoch vlog fold_idx epoch train_loss val_dice =
     (if length (vl_folds vlog) \<le> fold_idx then Inl IndexError
      else
        let fold = vl_folds vlog ! fold_idx;
            fold1 = fold\<lparr>fe_epochs := fe_epochs fold @
                      [\<lparr>ee_epoch = epoch, ee_train_loss = round6 train_loss,
                        ee_val_dice = round6 val_dice\<rparr>]\<rparr>;
            fold2 = (if fe_best_dice fold1 < val_dice
                     then fold1\<lparr>fe_best_dice := round6 val_dice, fe_best_epoch := epoch\<rparr>
                     else fold1)
        in Inr (vlog\<lparr>vl_folds := (vl_folds vlog)[fold_idx := fold2]\<rparr>))"

text \<open>
  The loop \<open>for i in range(N_FOLDS): if os.path.exists(src): shutil.copy2(src, dst)\<close>
  of \<open>finalize_version\<close> and of \<open>restore_version\<close>, over the fold files of a source
  and a target directory.
\<close>

fun copy_fold_files ::
  "(int \<Rightarrow> checkpoint option) \<Rightarrow> nat list \<Rightarrow> (int \<Rightarrow> checkpoint option) \<Rightarrow>
   (int \<Rightarrow> checkpoint option)" where
  "copy_fold_files src [] dst = dst"
| "copy_fold_files src (i # rest) dst =
     (case src (int i) of
        None \<Rightarrow> copy_fold_files src rest dst
      | Some c \<Rightarrow> copy_fold_files src rest (dst(int i := Some c)))"

text \<open>
  \<open>finalize_version\<close>: the exception raised (if any) and the server afterwards. The
  directory is made and the checkpoints are copied before the results block is built, so
  they remain if \<open>fold_dices[best_fold_idx]\<close> raises. \<open>now\<close> is the clock reading
  \<open>datetime.now().isoformat()\<close>. \<open>fmean fold_dices\<close> is the value of
  \<open>sum(fold_dices) / len(fold_dices)\<close>, which float arithmetic computes: it is near
  the exact mean of the scores and need not equal it. A run passes the \<open>float_mean\<close> of
  its environment.
\<close>

definition finalize_version ::
  "(rat list \<Rightarrow> rat) \<Rightarrow> server \<Rightarrow> string \<Rightarrow> version_log \<Rightarrow> rat list \<Rightarrow> int \<Rightarrow> string \<Rightarrow>
   string \<Rightarrow> py_exception option \<times> server" where
  "finalize_version fmean srv version vlog fold_dices best_fold_idx status now =
     (let vd0 = (case map_of (versions srv) version of
                   None \<Rightarrow> empty_version_dir | Some d \<Rightarrow> d);
          vd1 = vd0\<lparr>vd_fold_files :=
                     copy_fold_files (fold_files srv) [0..<N_FOLDS] (vd_fold_files vd0)\<rparr>;
          vd2 = (case best_file srv of
                   None \<Rightarrow> vd1 | Some b \<Rightarrow> vd1\<lparr>vd_best_file := Some b\<rparr>);
          mean_dice = (if fold_dices \<noteq> [] then fmean fold_dices else 0)
      in case (if fold_dices \<noteq> [] then py_index fold_dices best_fold_idx else Inr 0) of
           Inl e \<Rightarrow> (Some e, srv\<lparr>versions := AList.update version vd2 (versions srv)\<rparr>)
         | Inr d \<Rightarrow>
             let vlog' = vlog\<lparr>vl_results :=
                              Some \<lparr>rs_mean_dice = round6 mean_dice,
                                    rs_fold_dices = map round6 fold_dices,
                                    rs_best_fold_idx = best_fold_idx,
                                    rs_best_fold_dice = (if fold_dices \<noteq> [] then round6 d else 0)\<rparr>,
                            vl_status := status,
                            vl_completed_at := Some now\<rparr>
             in (None,
                 srv\<lparr>versions :=
                       AList.update version (vd2\<lparr>vd_log_file := Some (Log vlog')\<rparr>)
                         (versions srv)\<rparr>))"






text \<open>
  \<open>list_all_versions\<close>: one summary per name of \<open>versions/\<close> that is a version
  identifier, in sorted order. A key the summary dict lacks is \<open>None\<close>.
\<close>

record version_summary =
  vs_version :: string
  vs_status :: string
  vs_started_at :: "string option"
  vs_completed_at :: "string option"
  vs_mean_dice :: "rat option"
  vs_best_fold_dice :: "rat option"
  vs_best_fold_idx :: "int option"
  vs_completed_pairs :: "nat option"

definition summary_of :: "string \<Rightarrow> version_dir \<Rightarrow> version_summary" where
  "summary_of name vd =
     (case vd_log_file vd of
        None \<Rightarrow>
          \<lparr>vs_version = name, vs_status = ''unknown'', vs_started_at = None,
           vs_completed_at = None, vs_mean_dice = None, vs_best_fold_dice = None,
           vs_best_fold_idx = None, vs_completed_pairs = None\<rparr>
      | Some Corrupt \<Rightarrow>
          \<lparr>vs_version = name, vs_status = ''error'', vs_started_at = None,
           vs_completed_at = None, vs_mean_dice = None, vs_best_fold_dice = None,
           vs_best_fold_idx = None, vs_completed_pairs = None\<rparr>
      | Some (Log vlog) \<Rightarrow>
          \<lparr>vs_version = name, vs_status = vl_status vlog,
           vs_started_at = Some (vl_started_at vlog),
           vs_completed_at = vl_completed_at vlog,
           vs_mean_dice = map_option rs_mean_dice (vl_results vlog),
           vs_best_fold_dice = map_option rs_best_fold_dice (vl_results vlog),
           vs_best_fold_idx = map_option rs_best_fold_idx (vl_results vlog),
           vs_completed_pairs = Some (ds_completed_pairs (vl_dataset vlog))\<rparr>)"

definition list_all_versions :: "(string \<times> version_dir) list \<Rightarrow> version_summary list" where
  "list_all_versions vs =
     List.map_filter
       (\<lambda>name. case match_version name of
                  None \<Rightarrow> None
                | Some m \<Rightarrow> map_option (summary_of name) (map_of vs name))
       (sort (map fst vs))"


section \<open>Cross-validation training (trainer.py)\<close>

text \<open>
  What the network, the random source, the operator and the clock contribute to a run.
  For fold \<open>f\<close> and epoch \<open>e\<close>, \<open>env_epoch env f e\<close> says how the body of the
  epoch loop goes: \<open>cancel_event.is_set()\<close> holds at its top (\<open>CancelSeen\<close>), the
  training or validation pass raises (\<open>Raised\<close>), or both passes finish with an average
  loss and a mean validation Dice (\<open>Trained\<close>). \<open>env_setup_raises env f\<close> says
  whether building or loading the model of fold \<open>f\<close> raises, before its first epoch.
  The float arithmetic of the interpreter is part of it too: \<open>float_mean env xs\<close> is the
  value of \<open>sum(xs) / len(xs)\<close> and \<open>np_mean env xs\<close> that of \<open>float(np.mean(xs))\<close>
  on a non-empty list of floats, each near the exact mean of \<open>xs\<close>.
\<close>

datatype epoch_event = Trained rat rat | CancelSeen | Raised

record environment =
  env_shuffle :: "(string \<times> string) list \<Rightarrow> (string \<times> string) list"
  env_setup_raises :: "nat \<Rightarrow> bool"
  env_epoch :: "nat \<Rightarrow> int \<Rightarrow> epoch_event"
  float_mean :: "rat list \<Rightarrow> rat"
  np_mean :: "rat list \<Rightarrow> rat"
  now_log_created :: string
  now_finalized :: string
  now_task_done :: string

text \<open>\<open>update_training_status\<close> of main.py, the status callback of every run.\<close>

definition update_training_status ::
  "training_status \<Rightarrow> int \<Rightarrow> rat \<Rightarrow> nat \<Rightarrow> training_status" where
  "update_training_status ts epoch dice fold_idx =
     ts\<lparr>ts_epoch := epoch, ts_best_dice := max (ts_best_dice ts) dice,
        ts_current_fold := fold_idx\<rparr>"

text \<open>
  The epoch loop of \<open>_train_single_fold\<close> over the epochs still to run, with the
  running \<open>best_dice\<close>. The state is the server and the log of the run, which the two
  callbacks and \<open>torch.save\<close> change.
\<close>

fun train_epochs ::
  "environment \<Rightarrow> nat \<Rightarrow> int \<Rightarrow> int list \<Rightarrow> rat \<Rightarrow> server \<times> version_log \<Rightarrow>
   (py_exception + rat) \<times> (server \<times> version_log)" where
  "train_epochs env fold_idx global_epoch_offset [] best_dice (srv, vlog) =
     (Inr best_dice, (srv, vlog))"
| "train_epochs env fold_idx global_epoch_offset (epoch # rest) best_dice (srv, vlog) =
     (case env_epoch env fold_idx epoch of
        CancelSeen \<Rightarrow> (Inl TrainingCancelled, (srv, vlog))
      | Raised \<Rightarrow> (Inl RuntimeError, (srv, vlog))
      | Trained avg_loss mean_dice \<Rightarrow>
          (case record_epoch vlog fold_idx epoch avg_loss mean_dice of
             Inl e \<Rightarrow> (Inl e, (srv, vlog))
           | Inr vlog1 \<Rightarrow>
               let srv1 = srv\<lparr>training_status :=
                               update_training_status (training_status srv)
                                 (global_epoch_offset + epoch) mean_dice fold_idx\<rparr>
               in if best_dice < mean_dice
                  then train_epochs env fold_idx global_epoch_offset rest mean_dice
                         (srv1\<lparr>fold_files := (fold_files srv1)
                                  (int fold_idx :=
                                     Some \<lparr>ck_epoch = epoch, ck_best_dice = mean_dice,
                                           ck_fold_idx = fold_idx\<rparr>)\<rparr>,
                          vlog1)
                  else train_epochs env fold_idx global_epoch_offset rest best_dice
                         (srv1, vlog1)))"

definition train_single_fold ::
  "environment \<Rightarrow> nat \<Rightarrow> int \<Rightarrow> int \<Rightarrow> server \<times> version_log \<Rightarrow>
   (py_exception + rat) \<times> (server \<times> version_log)" where
  "train_single_fold env fold_idx max_epochs global_epoch_offset s =
     (if env_setup_raises env fold_idx then (Inl RuntimeError, s)
      else train_epochs env fold_idx global_epoch_offset [1..max_epochs] 0 s)"

text \<open>The locals \<open>fold_dices\<close>, \<open>best_fold_idx\<close> and \<open>best_fold_dice\<close> of \<open>train_model\<close>.\<close>

record cv_progress =
  cv_fold_dices :: "rat list"
  cv_best_fold_idx :: int
  cv_best_fold_dice :: rat

text \<open>
  The loop \<open>for fold_idx in range(N_FOLDS)\<close> inside the \<open>try\<close> of \<open>train_model\<close>, over
  the fold indices still to run. \<open>folds\<close> comes from \<open>_make_folds(all_pairs, N_FOLDS)\<close>
  and has \<open>N_FOLDS\<close> entries. The result is the exception that left the loop (if any),
  the locals and the state.
\<close>

fun run_folds ::
  "environment \<Rightarrow> int \<Rightarrow> (string \<times> string) list list \<Rightarrow> nat list \<Rightarrow> cv_progress \<Rightarrow>
   server \<times> version_log \<Rightarrow> py_exception option \<times> cv_progress \<times> (server \<times> version_log)" where
  "run_folds env max_epochs folds [] cv s = (None, cv, s)"
| "run_folds env max_epochs folds (fold_idx # rest) cv (srv, vlog) =
     (let val_pairs = folds ! fold_idx;
          train_pairs_fold =
            concat (map (\<lambda>j. folds ! j) (filter (\<lambda>j. j \<noteq> fold_idx) [0..<N_FOLDS]))
      in case set_fold_split_info vlog fold_idx (length train_pairs_fold) (length val_pairs) of
           Inl e \<Rightarrow> (Some e, cv, (srv, vlog))
         | Inr vlog1 \<Rightarrow>
             (case train_single_fold env fold_idx max_epochs (int fold_idx * max_epochs)
                     (srv, vlog1) of
                (Inl e, s1) \<Rightarrow> (Some e, cv, s1)
              | (Inr fold_dice, s1) \<Rightarrow>
                  let cv1 = cv\<lparr>cv_fold_dices := cv_fold_dices cv @ [fold_dice]\<rparr>;
                      cv2 = (if cv_best_fold_dice cv1 < fold_dice
                             then cv1\<lparr>cv_best_fold_dice := fold_dice,
                                      cv_best_fold_idx := int fold_idx\<rparr>
                             else cv1)
                  in run_folds env max_epochs folds rest cv2 s1))"

text \<open>
  The two \<open>except\<close> handlers of \<open>train_model\<close>: finalize with the clamped best fold
  index, then re-raise; an exception of \<open>finalize_version\<close> itself replaces the one
  being handled.
\<close>

definition finalize_and_raise ::
  "environment \<Rightarrow> py_exception \<Rightarrow> server \<Rightarrow> string \<Rightarrow> version_log \<Rightarrow> cv_progress \<Rightarrow>
   (py_exception + rat \<times> string) \<times> server" where
  "finalize_and_raise env e srv version vlog cv =
     (case finalize_version (float_mean env) srv version vlog (cv_fold_dices cv)
             (max (cv_best_fold_idx cv) 0)
             (if e = TrainingCancelled then ''cancelled'' else ''error'') (now_finalized env) of
        (None, srv') \<Rightarrow> (Inl e, srv')
      | (Some e', srv') \<Rightarrow> (Inl e', srv'))"

text \<open>
  \<open>train_model\<close>: the value returned \<open>(mean_dice, version)\<close> or the exception raised,
  and the server afterwards. The size check and \<open>get_next_version\<close> come before the
  \<open>try\<close>; an exception of the success path after the loop is caught by
  \<open>except Exception\<close> as well.
\<close>

definition train_model ::
  "environment \<Rightarrow> server \<Rightarrow> (string \<times> string) list \<Rightarrow> int \<Rightarrow>
   (py_exception + rat \<times> string) \<times> server" where
  "train_model env srv training_pairs max_epochs =
     (if length training_pairs < MIN_IMAGES_FOR_TRAINING then (Inl ValueError, srv)
      else
        let version = get_next_version (map fst (versions srv));
            version_log = create_version_log version training_pairs max_epochs 0 0
                            (now_log_created env);
            all_pairs = env_shuffle env training_pairs
        in case make_folds all_pairs (int N_FOLDS) of
             Inl e \<Rightarrow> (Inl e, srv)
           | Inr folds \<Rightarrow>
               (case run_folds env max_epochs folds [0..<N_FOLDS]
                       \<lparr>cv_fold_dices = [], cv_best_fold_idx = - 1, cv_best_fold_dice = 0\<rparr>
                       (srv, version_log) of
                  (Some e, cv, (srv1, vlog1)) \<Rightarrow>
                    finalize_and_raise env e srv1 version vlog1 cv
                | (None, cv, (srv1, vlog1)) \<Rightarrow>
                    let srv2 = (case fold_files srv1 (cv_best_fold_idx cv) of
                                  None \<Rightarrow> srv1
                                | Some c \<Rightarrow> srv1\<lparr>best_file := Some c\<rparr>);
                        srv3 = reload_model srv2;
                        mean_dice = np_mean env (cv_fold_dices cv)
                    in (case finalize_version (float_mean env) srv3 version vlog1
                               (cv_fold_dices cv)
                               (cv_best_fold_idx cv) ''completed'' (now_finalized env) of
                          (None, srv4) \<Rightarrow> (Inr (mean_dice, version), srv4)
                        | (Some e, srv4) \<Rightarrow>
                            finalize_and_raise env e srv4 version vlog1 cv)))"


section \<open>Training orchestrator (main.py)\<close>

text \<open>\<open>str(e)\<close> for the status dict; the class name stands for the message.\<close>

definition str_of_exception :: "py_exception \<Rightarrow> string" where
  "str_of_exception e =
     (case e of
        ValueError \<Rightarrow> ''ValueError'' | IndexError \<Rightarrow> ''IndexError''
      | ZeroDivisionError \<Rightarrow> ''ZeroDivisionError''
      | FileNotFoundError \<Rightarrow> ''FileNotFoundError''
      | TrainingCancelled \<Rightarrow> ''TrainingCancelled'' | RuntimeError \<Rightarrow> ''RuntimeError''
      | IsADirectoryError \<Rightarrow> ''IsADirectoryError''
      | NotADirectoryError \<Rightarrow> ''NotADirectoryError''
      | SameFileError \<Rightarrow> ''SameFileError'')"

text \<open>\<open>run_training_task\<close>, the background task: runs \<open>train_model\<close> and sets the status.\<close>

definition run_training_task ::
  "environment \<Rightarrow> server \<Rightarrow> (string \<times> string) list \<Rightarrow> int \<Rightarrow> server" where
  "run_training_task env srv training_pairs max_epochs =
     (case train_model env srv training_pairs max_epochs of
        (Inr (best_dice, version), srv1) \<Rightarrow>
          srv1\<lparr>training_status := (training_status srv1)
                 \<lparr>ts_status := ''completed'', ts_best_dice := best_dice,
                  ts_version := Some version,
                  ts_completed_at := Some (now_task_done env)\<rparr>\<rparr>
      | (Inl e, srv1) \<Rightarrow>
          if e = TrainingCancelled
          then srv1\<lparr>training_status := (training_status srv1)
                      \<lparr>ts_status := ''cancelled'',
                       ts_completed_at := Some (now_task_done env)\<rparr>\<rparr>
          else srv1\<lparr>training_status := (training_status srv1)
                      \<lparr>ts_status := ''error'', ts_error := Some (str_of_exception e),
                       ts_completed_at := Some (now_task_done env)\<rparr>\<rparr>)"

text \<open>
  The answer of \<open>POST /train\<close>: an error response with its HTTP status code, or the
  body \<open>{"status": "started", ...}\<close> with the epoch budget and the number of pairs.
\<close>

datatype response = JSONResponse nat | Started int nat

text \<open>
  \<open>start_training\<close>. \<open>background_tasks\<close> is the request's task list: a task added to
  it runs after the response is sent. \<open>now\<close> is the clock reading for \<open>started_at\<close>.
\<close>

definition start_training ::
  "data_store \<Rightarrow> server \<Rightarrow> ((string \<times> string) list \<times> int) list \<Rightarrow> int \<Rightarrow> string \<Rightarrow>
   response \<times> server \<times> ((string \<times> string) list \<times> int) list" where
  "start_training dm srv background_tasks max_epochs now =
     (let training_pairs = get_all_training_pairs dm
      in if length training_pairs < MIN_IMAGES_FOR_TRAINING
         then (JSONResponse 400, srv, background_tasks)
         else if ts_status (training_status srv) = ''running''
         then (JSONResponse 409, srv, background_tasks)
         else
           (Started max_epochs (length training_pairs),
            srv\<lparr>training_status := (training_status srv)
                   \<lparr>ts_status := ''running'', ts_epoch := 0,
                    ts_max_epochs := int N_FOLDS * max_epochs, ts_best_dice := 0,
                    ts_current_fold := 0, ts_n_folds := N_FOLDS,
                    ts_started_at := Some now, ts_completed_at := None,
                    ts_error := None\<rparr>,
                 training_cancel_event := False\<rparr>,
            background_tasks @ [(training_pairs, max_epochs)]))"



section \<open>Example states\<close>

text \<open>Concrete stores, servers and environments, for evaluating the model.\<close>

definition example_status :: "string \<Rightarrow> training_status" where
  "example_status s =
     \<lparr>ts_status = s, ts_epoch = 7, ts_max_epochs = 10, ts_best_dice = 1 / 2,
      ts_current_fold = 3, ts_n_folds = 5, ts_started_at = Some ''t0'',
      ts_completed_at = None, ts_error = None, ts_version = None\<rparr>"

definition example_checkpoint :: checkpoint where
  "example_checkpoint = \<lparr>ck_epoch = 3, ck_best_dice = 4 / 5, ck_fold_idx = 0\<rparr>"

text \<open>
  A server with one loaded model and one version directory \<open>v001\<close>, which holds
  \<open>fold_0.pt\<close> and neither \<open>best.pt\<close> nor a training log.
\<close>

definition example_server :: "string \<Rightarrow> server" where
  "example_server s =
     \<lparr>training_status = example_status s, training_cancel_event = True,
      versions = [(''v001'', empty_version_dir\<lparr>vd_fold_files :=
                    (\<lambda>i. if i = 0 then Some example_checkpoint else None)\<rparr>)],
      fold_files = (\<lambda>i. None), best_file = None,
      models = [example_checkpoint], models_loaded = True\<rparr>"

text \<open>A store with one completed pair and two inbox images.\<close>

definition example_store :: "directory \<Rightarrow> data_store" where
  "example_store inbox_annotations =
     \<lparr>completed_images = [(''c.png'', ''img'')], completed_annotations = [(''c.png'', ''mask'')],
      unannotated_images = [(''a.png'', ''img''), (''b.png'', ''img'')],
      unannotated_annotations = inbox_annotations\<rparr>"

text \<open>
  The exact mean of a list of scores. On floats whose sum and mean are floats as well,
  as the scores of \<open>example_env\<close> below are, \<open>sum(xs) / len(xs)\<close> and \<open>np.mean(xs)\<close>
  give this very value.
\<close>

definition exact_mean :: "rat list \<Rightarrow> rat" where
  "exact_mean xs = sum_list xs / of_nat (length xs)"

text \<open>
  An environment where every epoch trains, fold \<open>f\<close> scoring \<open>(f + 1) / 256\<close>, but for
  the first epoch of fold 0, which goes as given. The scores, their partial sums and
  their mean \<open>3/256\<close> are binary fractions of a few bits.
\<close>

definition example_env :: "epoch_event \<Rightarrow> environment" where
  "example_env first_event =
     \<lparr>env_shuffle = (\<lambda>pairs. rev pairs), env_setup_raises = (\<lambda>f. False),
      env_epoch = (\<lambda>f e. if f = 0 \<and> e = 1 then first_event
                          else Trained (1 / 2) (of_nat (f + 1) / 256)),
      float_mean = exact_mean, np_mean = exact_mean,
      now_log_created = ''t1'', now_finalized = ''t2'', now_task_done = ''t3''\<rparr>"

definition example_pairs :: "(string \<times> string) list" where
  "example_pairs = [(''i1.png'', ''a1.png''), (''i2.png'', ''a2.png''), (''i3.png'', ''a3.png'')]"


section \<open>Predicates and abbreviations for the proofs about a run\<close>

text \<open>What the fold loop never touches: versions, \<open>best.pt\<close>, the loaded models, the cancel event.\<close>

definition training_frame :: "server \<Rightarrow> server \<Rightarrow> bool" where
  "training_frame srv srv' \<longleftrightarrow>
     versions srv' = versions srv \<and> best_file srv' = best_file srv \<and>
     models srv' = models srv \<and> models_loaded srv' = models_loaded srv \<and>
     training_cancel_event srv' = training_cancel_event srv"

text \<open>
  The best fold index is \<open>-1\<close> or the index of a fold that has finished, so
  \<open>fold_dices[best_fold_idx]\<close> is defined once a fold has finished.
\<close>

definition idx_ok :: "cv_progress \<Rightarrow> bool" where
  "idx_ok cv \<longleftrightarrow>
     - 1 \<le> cv_best_fold_idx cv \<and> cv_best_fold_idx cv < int (length (cv_fold_dices cv))"

text \<open>
  The log \<open>finalize_version\<close> writes, \<open>d\<close> being \<open>fold_dices[best_fold_idx]\<close>; the
  copy of the best fold's checkpoint to \<open>best.pt\<close>; the locals before the first fold.
\<close>

definition finalized_log ::
  "(rat list \<Rightarrow> rat) \<Rightarrow> version_log \<Rightarrow> rat list \<Rightarrow> int \<Rightarrow> rat \<Rightarrow> string \<Rightarrow> string \<Rightarrow>
   version_log" where
  "finalized_log fmean vlog fold_dices best_fold_idx d status now =
     vlog\<lparr>vl_results :=
            Some \<lparr>rs_mean_dice = round6 (if fold_dices \<noteq> [] then fmean fold_dices else 0),
                  rs_fold_dices = map round6 fold_dices,
                  rs_best_fold_idx = best_fold_idx,
                  rs_best_fold_dice = (if fold_dices \<noteq> [] then round6 d else 0)\<rparr>,
          vl_status := status, vl_completed_at := Some now\<rparr>"

definition promote_best :: "server \<Rightarrow> cv_progress \<Rightarrow> server" where
  "promote_best srv1 cv =
     (case fold_files srv1 (cv_best_fold_idx cv) of
        None \<Rightarrow> srv1
      | Some c \<Rightarrow> srv1\<lparr>best_file := Some c\<rparr>)"

definition initial_cv :: cv_progress where
  "initial_cv = \<lparr>cv_fold_dices = [], cv_best_fold_idx = - 1, cv_best_fold_dice = 0\<rparr>"

text \<open>
  How the lookups of one relative path from the inbox image directory and from the
  inbox annotation directory stand to each other: at the same place; each still in its
  own directory; each at a name of its own directory, held or not; or both failed.
\<close>

definition alongside :: "data_lookup \<Rightarrow> data_lookup \<Rightarrow> bool" where
  "alongside i a \<longleftrightarrow>
     i = a \<or>
     (i = At (Area_dir Unannotated Images) \<and> a = At (Area_dir Unannotated Annotations)) \<or>
     ((\<exists>name. i = At (File_in Unannotated Images name) \<or>
              i = No_entry Unannotated Images name) \<and>
      (\<exists>name. a = At (File_in Unannotated Annotations name) \<or>
              a = No_entry Unannotated Annotations name)) \<or>
     ((\<exists>e. i = Lookup_failed e) \<and> (\<exists>e. a = Lookup_failed e))"







section \<open>Fold assignment: the round-robin split is complete and balanced\<close>

lemma length_make_folds_loop: "length (make_folds_loop n i ps folds) = length folds"
  by (induction ps arbitrary: i folds) auto

lemma mset_concat_update:
  "j < length fs \<Longrightarrow> mset (concat (fs[j := fs ! j @ [p]])) = add_mset p (mset (concat fs))"
proof (induction fs arbitrary: j)
  case Nil
  then show ?case by simp
next
  case (Cons f fs)
  then show ?case by (cases j) auto
qed

lemma mset_make_folds_loop:
  "0 < n \<Longrightarrow> length folds = n \<Longrightarrow>
   mset (concat (make_folds_loop n i ps folds)) = mset (concat folds) + mset ps"
  by (induction ps arbitrary: i folds) (auto simp: mset_concat_update)

lemma balanced_step:
  assumes "0 < n" "length folds = n" "balanced n i folds"
  shows "balanced n (Suc i) (folds[i mod n := folds ! (i mod n) @ [p]])"
  unfolding balanced_def
proof (intro allI impI)
  fix j assume j: "j < n"
  have r: "i mod n < n" using assms(1) by simp
  have lj: "length (folds ! j) = i div n + (if j < i mod n then 1 else 0)"
    using assms(3) j by (simp add: balanced_def)
  show "length (folds[i mod n := folds ! (i mod n) @ [p]] ! j) =
        Suc i div n + (if j < Suc i mod n then 1 else 0)"
  proof (cases "Suc (i mod n) = n")
    case True
    then have "Suc i mod n = 0" "Suc i div n = Suc (i div n)"
      by (simp_all add: mod_Suc div_Suc)
    then show ?thesis using lj j True assms(2)
      by (cases "j = i mod n") (auto simp: nth_list_update)
  next
    case False
    then have "Suc i mod n = Suc (i mod n)" "Suc i div n = i div n"
      by (simp_all add: mod_Suc div_Suc)
    then show ?thesis using lj j assms(2) r
      by (cases "j = i mod n") (auto simp: nth_list_update)
  qed
qed

lemma balanced_make_folds_loop:
  "0 < n \<Longrightarrow> length folds = n \<Longrightarrow> balanced n i folds \<Longrightarrow>
   balanced n (i + length ps) (make_folds_loop n i ps folds)"
proof (induction ps arbitrary: i folds)
  case Nil
  then show ?case by simp
next
  case (Cons p ps)
  have "balanced n (Suc i + length ps)
          (make_folds_loop n (Suc i) ps (folds[i mod n := folds ! (i mod n) @ [p]]))"
  proof (rule Cons.IH)
    show "0 < n" by (rule Cons.prems(1))
    show "length (folds[i mod n := folds ! (i mod n) @ [p]]) = n"
      using Cons.prems(2) by simp
    show "balanced n (Suc i) (folds[i mod n := folds ! (i mod n) @ [p]])"
      by (rule balanced_step [OF Cons.prems])
  qed
  then show ?case by simp
qed

lemma nth_make_folds_loop:
  "0 < n \<Longrightarrow> length folds = n \<Longrightarrow> j < n \<Longrightarrow>
   make_folds_loop n i ps folds ! j =
     folds ! j @ map (\<lambda>m. ps ! m) (filter (\<lambda>m. (i + m) mod n = j) [0..<length ps])"
proof (induction ps arbitrary: i folds)
  case Nil
  then show ?case by simp
next
  case (Cons p ps)
  let ?folds' = "folds[i mod n := folds ! (i mod n) @ [p]]"
  have IH: "make_folds_loop n (Suc i) ps ?folds' ! j =
     ?folds' ! j @ map (\<lambda>m. ps ! m) (filter (\<lambda>m. (Suc i + m) mod n = j) [0..<length ps])"
    by (rule Cons.IH) (use Cons.prems in auto)
  have up: "[0..<length (p # ps)] = 0 # map Suc [0..<length ps]"
    by (simp add: upt_conv_Cons map_Suc_upt del: upt_Suc)
  show ?case
    unfolding make_folds_loop.simps IH up
    using Cons.prems by (auto simp: filter_map comp_def nth_list_update)
qed

lemma balanced_sizes:
  assumes "balanced n i folds" "a < n" "b < n"
  shows "length (folds ! a) \<le> length (folds ! b) + 1"
  using assms by (auto simp: balanced_def)

lemma make_folds_positive:
  assumes "1 \<le> k"
  shows "make_folds pairs k = Inr (make_folds_loop (nat k) 0 pairs (replicate (nat k) []))"
  using assms by (cases pairs) (auto simp: make_folds_def)

text \<open>
  C4. For every list of pairs and every fold count \<open>k \<ge> 1\<close>, \<open>_make_folds\<close> returns
  exactly \<open>k\<close> folds; any two of them differ in size by at most one; the folds together
  hold the pairs of the input, each exactly once (as multisets); and fold \<open>j\<close> is the
  pairs at the indices \<open>i\<close> with \<open>i mod k = j\<close>, in input order.
\<close>

theorem make_folds_round_robin:
  assumes "1 \<le> k"
  shows "\<exists>folds. make_folds pairs k = Inr folds \<and> length folds = nat k \<and>
           (\<forall>a<nat k. \<forall>b<nat k. length (folds ! a) \<le> length (folds ! b) + 1) \<and>
           mset (concat folds) = mset pairs \<and>
           (\<forall>j<nat k. folds ! j =
              map (\<lambda>i. pairs ! i) (filter (\<lambda>i. i mod nat k = j) [0..<length pairs]))"
proof -
  let ?n = "nat k"
  let ?folds = "make_folds_loop ?n 0 pairs (replicate ?n [])"
  have n: "0 < ?n" using assms by simp
  have len0: "length (replicate ?n ([]::'a list)) = ?n" by simp
  have res: "make_folds pairs k = Inr ?folds" by (rule make_folds_positive [OF assms])
  have len: "length ?folds = ?n" by (simp add: length_make_folds_loop)
  have "balanced ?n 0 (replicate ?n ([]::'a list))" by (simp add: balanced_def)
  then have "balanced ?n (0 + length pairs) ?folds"
    by (rule balanced_make_folds_loop [OF n len0])
  then have sizes: "\<forall>a<?n. \<forall>b<?n. length (?folds ! a) \<le> length (?folds ! b) + 1"
    by (blast intro: balanced_sizes)
  have ms: "mset (concat ?folds) = mset pairs"
    using mset_make_folds_loop [OF n len0, of 0 pairs] by simp
  have nth: "\<forall>j<?n. ?folds ! j =
               map (\<lambda>i. pairs ! i) (filter (\<lambda>i. i mod ?n = j) [0..<length pairs])"
    using nth_make_folds_loop [OF n len0, of _ 0 pairs] by simp
  from res len sizes ms nth show ?thesis by blast
qed

theorem make_folds_round_robin_witness:
  "(1::int) \<le> 3 \<and>
   (\<exists>folds. make_folds [''a'', ''b'', ''c'', ''d'', ''e'', ''f'', ''g''] 3 = Inr folds \<and>
      length folds = 3 \<and>
      mset (concat folds) = mset [''a'', ''b'', ''c'', ''d'', ''e'', ''f'', ''g''])"
proof -
  have h: "(1::int) \<le> 3" by simp
  from make_folds_round_robin [OF h, of "[''a'', ''b'', ''c'', ''d'', ''e'', ''f'', ''g'']"]
  obtain folds where
    "make_folds [''a'', ''b'', ''c'', ''d'', ''e'', ''f'', ''g''] 3 = Inr folds"
    "length folds = nat 3"
    "mset (concat folds) = mset [''a'', ''b'', ''c'', ''d'', ''e'', ''f'', ''g'']"
    by blast
  then show ?thesis by auto
qed


section \<open>Version identifiers: the next version is the highest one plus one\<close>

lemma digit_val_digit_char: "d < 10 \<Longrightarrow> digit_val (digit_char d) = d"
  by (simp add: digit_val_def digit_char_def)

lemma is_digit_digit_char: "d < 10 \<Longrightarrow> is_digit (digit_char d)"
  by (simp add: is_digit_def digit_char_def less_eq_char_def)

lemma digit_char_not_newline: "d < 10 \<Longrightarrow> digit_char d \<noteq> CHR 0x0A"
proof
  assume d: "d < 10" and "digit_char d = CHR 0x0A"
  then have "(of_char (digit_char d) :: nat) = of_char (CHR 0x0A)" by simp
  with d show False by (simp add: digit_char_def)
qed

lemma is_digit_zero: "is_digit CHR ''0''"
  by (simp add: is_digit_def)

lemma digit_val_zero: "digit_val CHR ''0'' = 0"
  by (simp add: digit_val_def)

lemma int_of_digits_snoc: "int_of_digits (s @ [c]) = 10 * int_of_digits s + digit_val c"
  by (simp add: int_of_digits_def)

lemma int_of_digits_digits_of: "int_of_digits (digits_of n) = n"
proof (induction n rule: digits_of.induct)
  case (1 n)
  show ?case
  proof (cases "n < 10")
    case True
    then show ?thesis
      by (subst digits_of.simps) (simp add: int_of_digits_def digit_val_digit_char)
  next
    case False
    then have "int_of_digits (digits_of (n div 10)) = n div 10" using 1 by simp
    with False show ?thesis
      by (subst digits_of.simps) (simp add: int_of_digits_snoc digit_val_digit_char)
  qed
qed

lemma foldl_zeros:
  "foldl (\<lambda>acc c. 10 * acc + digit_val c) 0 (replicate k CHR ''0'') = 0"
  by (induction k) (simp_all add: digit_val_zero)

lemma int_of_digits_pad: "int_of_digits (replicate k CHR ''0'' @ s) = int_of_digits s"
  by (simp add: int_of_digits_def foldl_zeros)

lemma digits_of_all_digits: "list_all is_digit (digits_of n)"
proof (induction n rule: digits_of.induct)
  case (1 n)
  show ?case
  proof (cases "n < 10")
    case True
    then show ?thesis by (subst digits_of.simps) (simp add: is_digit_digit_char)
  next
    case False
    then have "list_all is_digit (digits_of (n div 10))" using 1 by simp
    with False show ?thesis by (subst digits_of.simps) (simp add: is_digit_digit_char)
  qed
qed

lemma digits_of_last: "digits_of n \<noteq> [] \<and> last (digits_of n) = digit_char (n mod 10)"
  by (subst (1 2) digits_of.simps) simp

lemma padded_props:
  assumes "ds = replicate (3 - length (digits_of n)) CHR ''0'' @ digits_of n"
  shows "3 \<le> length ds" "list_all is_digit ds" "ds \<noteq> []"
    "last ds \<noteq> CHR 0x0A" "int_of_digits ds = n"
proof -
  show "3 \<le> length ds" by (simp add: assms)
  show "list_all is_digit ds"
    using digits_of_all_digits [of n] by (auto simp: assms list_all_iff is_digit_zero)
  show "ds \<noteq> []" using digits_of_last [of n] by (simp add: assms)
  have "last ds = digit_char (n mod 10)"
    using digits_of_last [of n] by (simp add: assms)
  then show "last ds \<noteq> CHR 0x0A" by (simp add: digit_char_not_newline)
  show "int_of_digits ds = n"
    by (simp add: assms int_of_digits_pad int_of_digits_digits_of)
qed

lemma match_version_format:
  "match_version (format_version n) =
     Some (replicate (3 - length (digits_of n)) CHR ''0'' @ digits_of n)"
  using padded_props [OF refl, of n] by (simp add: match_version_def format_version_def)

lemma version_number_format: "version_number (format_version n) = Some n"
  using padded_props(5) [OF refl, of n] by (simp add: version_number_def match_version_format)

lemma fold_max_eq: "fold max ys (y::'a::linorder) = Max (insert y (set ys))"
proof (induction ys arbitrary: y)
  case Nil
  then show ?case by simp
next
  case (Cons a ys)
  have "fold max (a # ys) y = Max (insert (max a y) (set ys))" using Cons by simp
  also have "\<dots> = Max (insert y (set (a # ys)))"
    by (cases "set ys = {}") (simp_all add: max.commute max.left_commute max.assoc)
  finally show ?case .
qed

lemma max_default_eq: "max_default xs 0 = Max (insert 0 (set xs))"
proof (cases xs)
  case Nil
  then show ?thesis by (simp add: max_default_def)
next
  case (Cons y ys)
  have "Max (insert y (set ys)) = Max (insert 0 (insert y (set ys)))" by simp
  then show ?thesis using Cons by (simp add: max_default_def fold_max_eq del: Max_insert)
qed

lemma version_number_next:
  "version_number (get_next_version names) = Some (max_default (existing_versions names) 0 + 1)"
  by (simp add: get_next_version_def version_number_format)

lemma existing_versions_mem:
  "n \<in> set (existing_versions names) \<longleftrightarrow> (\<exists>name \<in> set names. version_number name = Some n)"
  by (force simp: existing_versions_def version_number_def List.map_filter_def image_iff)

lemma existing_below_next:
  assumes "name \<in> set names" "version_number name = Some n"
  shows "n < max_default (existing_versions names) 0 + 1"
proof -
  have "n \<in> set (existing_versions names)" using assms existing_versions_mem by blast
  then have "n \<le> Max (insert 0 (set (existing_versions names)))" by simp
  then show ?thesis by (simp add: max_default_eq)
qed

lemma retained_numbers:
  "retained ds \<Longrightarrow>
   sorted_wrt (<) (map (\<lambda>names. max_default (existing_versions names) 0 + 1) ds)"
proof (induction ds rule: retained.induct)
  case 1
  then show ?case by simp
next
  case (2 names)
  then show ?case by simp
next
  case (3 names names' rest)
  then have s: "sorted_wrt (<)
      (map (\<lambda>names. max_default (existing_versions names) 0 + 1) (names' # rest))"
    and le: "max_default (existing_versions names) 0 + 1
               \<le> max_default (existing_versions names') 0"
    by simp_all
  have "\<forall>x \<in> set (map (\<lambda>names. max_default (existing_versions names) 0 + 1) (names' # rest)).
          max_default (existing_versions names') 0 + 1 \<le> x"
    using s by (auto simp: less_imp_le)
  then show ?case using s le by auto
qed

lemma distinct_of_map: "distinct (map f ys) \<Longrightarrow> distinct ys"
  by (simp add: distinct_map)

lemma distinct_map_Some: "distinct xs \<Longrightarrow> distinct (map Some xs)"
  by (simp add: distinct_map)

lemma format_version_one: "format_version (Suc 0) = ''v001''"
  by code_simp

text \<open>
  The condition on the listings is needed: \<open>get_next_version\<close> only reads the
  directory, so once the highest versions are deleted their numbers are given out again.
\<close>

lemma get_next_version_reuse_after_deleting_latest:
  "get_next_version [''v001'', ''v002''] = ''v003'' \<and>
   get_next_version [''v001''] = ''v002'' \<and>
   \<not> retained [[''v001'', ''v002''], [''v001'']]"
  by code_simp

text \<open>
  C5. \<open>get_next_version\<close> returns the identifier \<open>v\<close> followed by at least three decimal
  digits whose number is the highest number among the version identifiers present, plus
  one; it is \<open>v001\<close> when there is none, and it is above every identifier present. Over
  successive calls on listings that keep a version at least as high as the identifier
  returned before (other versions may be added or deleted), the numbers returned increase
  strictly and no identifier is returned twice.
\<close>

theorem get_next_version_monotonic:
  "(\<exists>ds. get_next_version names = CHR ''v'' # ds \<and> 3 \<le> length ds \<and> list_all is_digit ds \<and>
         int_of_digits ds = Max (insert 0 (set (existing_versions names))) + 1) \<and>
   version_number (get_next_version names) =
     Some (Max (insert 0 (set (existing_versions names))) + 1) \<and>
   (existing_versions names = [] \<longrightarrow> get_next_version names = ''v001'') \<and>
   (\<forall>name \<in> set names. \<forall>n. version_number name = Some n \<longrightarrow>
      (\<exists>m. version_number (get_next_version names) = Some m \<and> n < m)) \<and>
   (retained listings \<longrightarrow>
      (\<exists>ns. map (\<lambda>l. version_number (get_next_version l)) listings = map Some ns \<and>
            sorted_wrt (<) ns) \<and>
      distinct (map get_next_version listings))"
proof (intro conjI impI ballI allI)
  let ?m = "Max (insert 0 (set (existing_versions names))) + 1"
  let ?ds = "replicate (3 - length (digits_of ?m)) CHR ''0'' @ digits_of ?m"
  have "get_next_version names = CHR ''v'' # ?ds"
    by (simp add: get_next_version_def format_version_def max_default_eq)
  then show "\<exists>ds. get_next_version names = CHR ''v'' # ds \<and> 3 \<le> length ds \<and>
      list_all is_digit ds \<and> int_of_digits ds = ?m"
    using padded_props(1,2,5) [OF refl, of ?m] by blast
  show "version_number (get_next_version names) = Some ?m"
    by (simp add: version_number_next max_default_eq)
next
  assume "existing_versions names = []"
  then show "get_next_version names = ''v001''"
    by (simp add: get_next_version_def max_default_def format_version_one)
next
  fix name n
  assume "name \<in> set names" "version_number name = Some n"
  then show "\<exists>m. version_number (get_next_version names) = Some m \<and> n < m"
    using existing_below_next version_number_next by blast
next
  assume r: "retained listings"
  let ?ns = "map (\<lambda>l. max_default (existing_versions l) 0 + 1) listings"
  have eq: "map (\<lambda>l. version_number (get_next_version l)) listings = map Some ?ns"
    by (simp add: version_number_next)
  have srt: "sorted_wrt (<) ?ns" by (rule retained_numbers [OF r])
  from eq srt
  show "\<exists>ns. map (\<lambda>l. version_number (get_next_version l)) listings = map Some ns \<and>
          sorted_wrt (<) ns"
    by blast
  have "distinct ?ns" using srt by (simp add: strict_sorted_iff)
  then have "distinct (map Some ?ns)" by (rule distinct_map_Some)
  then have "distinct (map (\<lambda>l. version_number (get_next_version l)) listings)"
    by (subst eq)
  then have "distinct (map version_number (map get_next_version listings))"
    by (simp add: comp_def)
  then show "distinct (map get_next_version listings)"
    by (rule distinct_of_map)
qed

theorem get_next_version_monotonic_witness:
  "get_next_version [''v001'', ''v003'', ''notes''] = ''v004'' \<and>
   retained [[''v001'', ''v002''], [''v003''], [''v004'', ''v003'']] \<and>
   map get_next_version [[''v001'', ''v002''], [''v003''], [''v004'', ''v003'']]
     = [''v003'', ''v004'', ''v005''] \<and>
   distinct (map get_next_version [[''v001'', ''v002''], [''v003''], [''v004'', ''v003'']])"
proof -
  have r: "retained [[''v001'', ''v002''], [''v003''], [''v004'', ''v003'']]"
    by code_simp
  have a: "get_next_version [''v001'', ''v003'', ''notes''] = ''v004''"
    by code_simp
  have b: "map get_next_version [[''v001'', ''v002''], [''v003''], [''v004'', ''v003'']]
     = [''v003'', ''v004'', ''v005'']"
    by code_simp
  from get_next_version_monotonic
    [of "[''v001'', ''v003'', ''notes'']" "[[''v001'', ''v002''], [''v003''], [''v004'', ''v003'']]"] r
  have "distinct (map get_next_version [[''v001'', ''v002''], [''v003''], [''v004'', ''v003'']])"
    by blast
  with r a b show ?thesis by blast
qed


section \<open>Data partition manager: the write gate and the pair count\<close>




text \<open>
  The ids that \<open>validate_image_id\<close> admits are plain names, so the route calls
  \<open>save_annotation\<close> with plain names only.
\<close>

lemma image_id_pattern_chars:
  assumes "image_id_pattern s" "c \<in> set s"
  shows "word_char c \<or> c \<in> set ''-.png'' \<or> c = CHR 0x0A"
proof -
  define t where "t = (if s \<noteq> [] \<and> last s = CHR 0x0A then butlast s else s)"
  from assms(1) have t: "drop (length t - 4) t = ''.png''"
    "list_all (\<lambda>c. word_char c \<or> c = CHR ''-'' \<or> c = CHR ''.'') (take (length t - 4) t)"
    by (simp_all add: image_id_pattern_def Let_def t_def)
  have "set s \<subseteq> set t \<union> {CHR 0x0A}"
  proof (cases "s \<noteq> [] \<and> last s = CHR 0x0A")
    case True
    then have "s = butlast s @ [CHR 0x0A]" by (metis append_butlast_last_id)
    then have "set s = set (butlast s) \<union> {CHR 0x0A}" by (metis set_append list.set(1,2))
    with True show ?thesis by (simp add: t_def)
  next
    case False
    then show ?thesis by (auto simp: t_def)
  qed
  moreover have "set t = set (take (length t - 4) t) \<union> set (drop (length t - 4) t)"
    by (metis append_take_drop_id set_append)
  ultimately have "c \<in> set (take (length t - 4) t) \<or> c \<in> set ''.png'' \<or> c = CHR 0x0A"
    using assms(2) t(1) by auto
  with t(2) show ?thesis by (auto simp: list_all_iff)
qed

lemma validate_image_id_plain:
  assumes "validate_image_id image_id"
  shows "plain_name image_id"
proof -
  from assms have pat: "image_id_pattern image_id" and slash: "CHR ''/'' \<notin> set image_id"
    by (auto simp: validate_image_id_def split: if_splits)
  from pat have len: "4 < length image_id"
    by (auto simp: image_id_pattern_def Let_def split: if_splits)
  have "CHR 0x00 \<notin> set image_id"
  proof
    assume "CHR 0x00 \<in> set image_id"
    from image_id_pattern_chars [OF pat this] show False
      by (simp add: word_char_def less_eq_char_def less_char_def)
  qed
  with len slash show ?thesis by (auto simp: plain_name_def)
qed

text \<open>
  Once the check of \<open>save_annotation\<close> has passed, the lookup of the path to write
  does not fail: it ends at a file, at a name to create, or at a directory.
\<close>

lemma alongside_step:
  assumes "alongside i a"
  shows "alongside (data_step st i c) (data_step st a c)"
proof -
  from assms consider "i = a"
    | "i = At (Area_dir Unannotated Images)" "a = At (Area_dir Unannotated Annotations)"
    | "(\<exists>name. i = At (File_in Unannotated Images name) \<or>
              i = No_entry Unannotated Images name)"
      "(\<exists>name. a = At (File_in Unannotated Annotations name) \<or>
              a = No_entry Unannotated Annotations name)"
    | "\<exists>e. i = Lookup_failed e" "\<exists>e. a = Lookup_failed e"
    unfolding alongside_def by blast
  then show ?thesis
  proof cases
    case 1
    then show ?thesis by (simp add: alongside_def)
  next
    case 2
    then show ?thesis by (simp add: alongside_def)
  next
    case 3
    then show ?thesis by (auto simp: alongside_def)
  next
    case 4
    then show ?thesis by (auto simp: alongside_def)
  qed
qed

lemma alongside_foldl:
  "alongside i a \<Longrightarrow> alongside (foldl (data_step st) i cs) (foldl (data_step st) a cs)"
  by (induction cs arbitrary: i a) (simp_all add: alongside_step)

lemma save_lookup_found:
  assumes "lookup_from st Unannotated Images rel = At image_node"
  shows "(\<exists>save_node. lookup_from st Unannotated Annotations rel = At save_node) \<or>
         (\<exists>name. lookup_from st Unannotated Annotations rel =
                   No_entry Unannotated Annotations name)"
proof -
  from assms have rel: "\<not> is_absolute rel"
    by (auto simp: lookup_from_def split: if_splits)
  have "alongside (At (Area_dir Unannotated Images)) (At (Area_dir Unannotated Annotations))"
    by (simp add: alongside_def)
  from alongside_foldl [OF this, of st "split_slash rel"] rel
  have "alongside (lookup_from st Unannotated Images rel)
          (lookup_from st Unannotated Annotations rel)"
    by (simp add: lookup_from_def)
  then have "alongside (At image_node) (lookup_from st Unannotated Annotations rel)"
    by (simp only: assms)
  then show ?thesis
    unfolding alongside_def by (elim disjE conjE exE) (metis data_lookup.distinct)+
qed




lemma length_filter_subset:
  assumes "distinct xs" "distinct ys" "set xs \<subseteq> set ys"
  shows "length (filter (\<lambda>f. f \<in> set xs) ys) = length xs"
proof -
  have "length (filter (\<lambda>f. f \<in> set xs) ys) = card ({f. f \<in> set xs} \<inter> set ys)"
    using assms(2) by (rule distinct_length_filter)
  also have "{f. f \<in> set xs} \<inter> set ys = set xs" using assms(3) by auto
  also have "card (set xs) = length xs" using assms(1) by (rule distinct_card)
  finally show ?thesis .
qed

lemma length_filter_swap:
  assumes "distinct xs" "distinct ys"
  shows "length (filter (\<lambda>f. f \<in> set xs) ys) = length (filter (\<lambda>f. f \<in> set ys) xs)"
proof -
  have "length (filter (\<lambda>f. f \<in> set xs) ys) = card ({f. f \<in> set xs} \<inter> set ys)"
    using assms(2) by (rule distinct_length_filter)
  moreover have "length (filter (\<lambda>f. f \<in> set ys) xs) = card ({f. f \<in> set ys} \<inter> set xs)"
    using assms(1) by (rule distinct_length_filter)
  moreover have "{f. f \<in> set xs} \<inter> set ys = {f. f \<in> set ys} \<inter> set xs" by auto
  ultimately show ?thesis by simp
qed

lemma distinct_list_png: "wf_directory d \<Longrightarrow> distinct (list_png d)"
  by (simp add: wf_directory_def list_png_def)

text \<open>
  C9. In a store whose directories list each name once and where every annotation
  listed in the completed partition has a completed image of the same name,
  \<open>total_training_pairs\<close> of \<open>get_stats\<close> is the number of pairs that
  \<open>get_all_training_pairs\<close> returns.
\<close>

theorem stats_total_matches_pairs:
  assumes "wf_store st"
    and "set (list_png (completed_annotations st)) \<subseteq> set (list_png (completed_images st))"
  shows "st_total_training_pairs (get_stats st) = int (length (get_all_training_pairs st))"
proof -
  have d: "distinct (list_png (completed_images st))"
    "distinct (list_png (completed_annotations st))"
    "distinct (list_png (unannotated_images st))"
    "distinct (list_png (unannotated_annotations st))"
    using assms(1) by (simp_all add: wf_store_def distinct_list_png)
  have c: "length (filter (\<lambda>f. f \<in> set (list_png (completed_annotations st)))
                    (list_png (completed_images st)))
           = length (list_png (completed_annotations st))"
    by (rule length_filter_subset [OF d(2) d(1) assms(2)])
  have u: "length (filter (\<lambda>f. f \<in> set (list_png (unannotated_annotations st)))
                    (list_png (unannotated_images st)))
           = length (filter (\<lambda>f. f \<in> set (list_png (unannotated_images st)))
                    (list_png (unannotated_annotations st)))"
    by (rule length_filter_swap [OF d(4) d(3)])
  show ?thesis
    by (simp add: get_stats_def get_all_training_pairs_def Let_def c u)
qed

theorem stats_total_matches_pairs_witness:
  "wf_store
     \<lparr>completed_images = [(''c1.png'', ''i''), (''c2.png'', ''i'')],
      completed_annotations = [(''c1.png'', ''m'')],
      unannotated_images = [(''a.png'', ''i''), (''b.PNG'', ''i'')],
      unannotated_annotations = [(''b.PNG'', ''m''), (''z.png'', ''m'')]\<rparr> \<and>
   st_total_training_pairs (get_stats
     \<lparr>completed_images = [(''c1.png'', ''i''), (''c2.png'', ''i'')],
      completed_annotations = [(''c1.png'', ''m'')],
      unannotated_images = [(''a.png'', ''i''), (''b.PNG'', ''i'')],
      unannotated_annotations = [(''b.PNG'', ''m''), (''z.png'', ''m'')]\<rparr>) = 2 \<and>
   length (get_all_training_pairs
     \<lparr>completed_images = [(''c1.png'', ''i''), (''c2.png'', ''i'')],
      completed_annotations = [(''c1.png'', ''m'')],
      unannotated_images = [(''a.png'', ''i''), (''b.PNG'', ''i'')],
      unannotated_annotations = [(''b.PNG'', ''m''), (''z.png'', ''m'')]\<rparr>) = 2"
proof -
  let ?st = "\<lparr>completed_images = [(''c1.png'', ''i''), (''c2.png'', ''i'')],
      completed_annotations = [(''c1.png'', ''m'')],
      unannotated_images = [(''a.png'', ''i''), (''b.PNG'', ''i'')],
      unannotated_annotations = [(''b.PNG'', ''m''), (''z.png'', ''m'')]\<rparr>"
  have w: "wf_store ?st" by code_simp
  have s: "set (list_png (completed_annotations ?st)) \<subseteq> set (list_png (completed_images ?st))"
    by code_simp
  have l: "length (get_all_training_pairs ?st) = 2" by code_simp
  from stats_total_matches_pairs [OF w s] l
  have "st_total_training_pairs (get_stats ?st) = 2" by simp
  with w l show ?thesis by blast
qed


section \<open>Orchestrator: the preconditions of a run\<close>

text \<open>
  With one eligible pair and a run in progress, \<open>POST /train\<close> answers 400 (too few
  pairs), not 409: the size check comes first.
\<close>

theorem start_training_running_counterexample:
  "ts_status (training_status (example_server ''running'')) = ''running'' \<and>
   length (get_all_training_pairs (example_store [])) = 1 \<and>
   fst (start_training (example_store []) (example_server ''running'') [] 50 ''t1'')
     = JSONResponse 400 \<and>
   fst (start_training (example_store []) (example_server ''running'') [] 50 ''t1'')
     \<noteq> JSONResponse 409"
  by code_simp

text \<open>
  C2, as the code has it. With fewer than \<open>MIN_IMAGES_FOR_TRAINING\<close> pairs,
  \<open>start_training\<close> answers 400, changes nothing and schedules nothing (and
  \<open>train_model\<close> itself raises ValueError before it takes a version). With enough
  pairs and the status \<open>running\<close>, it answers 409, changes nothing and schedules
  nothing. Otherwise it answers \<open>started\<close>, the status is \<open>running\<close> with epoch,
  best score and current fold reset to 0, the cancel event is cleared, and the run is
  added to the background tasks without being executed: versions and model files are as
  before.
\<close>

theorem start_training_preconditions:
  "(length (get_all_training_pairs dm) < MIN_IMAGES_FOR_TRAINING \<longrightarrow>
      start_training dm srv tasks max_epochs now = (JSONResponse 400, srv, tasks)) \<and>
   (MIN_IMAGES_FOR_TRAINING \<le> length (get_all_training_pairs dm) \<and>
    ts_status (training_status srv) = ''running'' \<longrightarrow>
      start_training dm srv tasks max_epochs now = (JSONResponse 409, srv, tasks)) \<and>
   (MIN_IMAGES_FOR_TRAINING \<le> length (get_all_training_pairs dm) \<and>
    ts_status (training_status srv) \<noteq> ''running'' \<longrightarrow>
      (\<exists>srv'. start_training dm srv tasks max_epochs now =
           (Started max_epochs (length (get_all_training_pairs dm)), srv',
            tasks @ [(get_all_training_pairs dm, max_epochs)]) \<and>
         ts_status (training_status srv') = ''running'' \<and>
         ts_epoch (training_status srv') = 0 \<and>
         ts_best_dice (training_status srv') = 0 \<and>
         ts_current_fold (training_status srv') = 0 \<and>
         training_cancel_event srv' = False \<and>
         versions srv' = versions srv \<and> fold_files srv' = fold_files srv \<and>
         best_file srv' = best_file srv \<and> models srv' = models srv \<and>
         models_loaded srv' = models_loaded srv)) \<and>
   (length training_pairs < MIN_IMAGES_FOR_TRAINING \<longrightarrow>
      train_model env srv training_pairs max_epochs = (Inl ValueError, srv))"
  by (simp add: start_training_def train_model_def Let_def)

theorem start_training_preconditions_witness:
  "start_training (example_store []) (example_server ''idle'') [] 50 ''t1''
     = (JSONResponse 400, example_server ''idle'', []) \<and>
   start_training (example_store [(''a.png'', ''mask'')]) (example_server ''running'') [] 50 ''t1''
     = (JSONResponse 409, example_server ''running'', []) \<and>
   fst (start_training (example_store [(''a.png'', ''mask'')]) (example_server ''completed'') [] 50 ''t1'')
     = Started 50 2 \<and>
   train_model (example_env CancelSeen) (example_server ''idle'') [] 50
     = (Inl ValueError, example_server ''idle'')"
proof -
  have a: "length (get_all_training_pairs (example_store [])) < MIN_IMAGES_FOR_TRAINING"
    by code_simp
  have b: "MIN_IMAGES_FOR_TRAINING \<le> length (get_all_training_pairs (example_store [(''a.png'', ''mask'')]))"
    by code_simp
  have l: "length (get_all_training_pairs (example_store [(''a.png'', ''mask'')])) = 2"
    by code_simp
  have r: "ts_status (training_status (example_server ''running'')) = ''running''"
    "ts_status (training_status (example_server ''completed'')) \<noteq> ''running''"
    by (simp_all add: example_server_def example_status_def)
  have m: "length ([] :: (string \<times> string) list) < MIN_IMAGES_FOR_TRAINING"
    by (simp add: MIN_IMAGES_FOR_TRAINING_def)
  show ?thesis
    using a b l r m
      start_training_preconditions [of "example_store []" "example_server ''idle''" "[]" 50 "''t1''"
        "[]" "example_env CancelSeen"]
      start_training_preconditions [of "example_store [(''a.png'', ''mask'')]"
        "example_server ''running''" "[]" 50 "''t1''" "[]" "example_env CancelSeen"]
      start_training_preconditions [of "example_store [(''a.png'', ''mask'')]"
        "example_server ''completed''" "[]" 50 "''t1''" "[]" "example_env CancelSeen"]
    by auto
qed

section \<open>Versioned artifact store: restoring a version\<close>









section \<open>Training runs: what the loops leave alone, and finalization\<close>

lemma training_frame_refl: "training_frame srv srv"
  by (simp add: training_frame_def)






text \<open>One pass of the fold loop, as a case distinction.\<close>

lemma run_folds_Cons:
  "run_folds env me folds (f # rest) cv (srv, vlog) = res \<Longrightarrow>
   (\<exists>e. set_fold_split_info vlog f
           (length (concat (map (\<lambda>j. folds ! j) (filter (\<lambda>j. j \<noteq> f) [0..<N_FOLDS]))))
           (length (folds ! f)) = Inl e \<and> res = (Some e, cv, (srv, vlog))) \<or>
   (\<exists>vlog1 e s1. set_fold_split_info vlog f
           (length (concat (map (\<lambda>j. folds ! j) (filter (\<lambda>j. j \<noteq> f) [0..<N_FOLDS]))))
           (length (folds ! f)) = Inr vlog1 \<and>
        train_single_fold env f me (int f * me) (srv, vlog1) = (Inl e, s1) \<and>
        res = (Some e, cv, s1)) \<or>
   (\<exists>vlog1 d s1. set_fold_split_info vlog f
           (length (concat (map (\<lambda>j. folds ! j) (filter (\<lambda>j. j \<noteq> f) [0..<N_FOLDS]))))
           (length (folds ! f)) = Inr vlog1 \<and>
        train_single_fold env f me (int f * me) (srv, vlog1) = (Inr d, s1) \<and>
        res = run_folds env me folds rest
                (if cv_best_fold_dice cv < d
                 then cv\<lparr>cv_fold_dices := cv_fold_dices cv @ [d],
                         cv_best_fold_dice := d, cv_best_fold_idx := int f\<rparr>
                 else cv\<lparr>cv_fold_dices := cv_fold_dices cv @ [d]\<rparr>) s1)"
  by (auto simp: Let_def split: sum.splits prod.splits)


lemma run_folds_idx:
  "run_folds env me folds [i..<n] cv s = (r, cv', s') \<Longrightarrow>
   length (cv_fold_dices cv) = i \<Longrightarrow> idx_ok cv \<Longrightarrow>
   idx_ok cv' \<and> i \<le> length (cv_fold_dices cv') \<and>
   (r = None \<longrightarrow> i \<le> n \<longrightarrow> length (cv_fold_dices cv') = n) \<and>
   (r \<noteq> None \<longrightarrow> length (cv_fold_dices cv') < n)"
proof (induction "n - i" arbitrary: i cv s)
  case 0
  then show ?case by simp
next
  case (Suc k)
  then have up: "[i..<n] = i # [Suc i..<n]" and k: "k = n - Suc i" and lt: "i < n"
    by (simp_all add: upt_conv_Cons)
  obtain srv vlog where s: "s = (srv, vlog)" by (cases s)
  from Suc.prems(1) have "run_folds env me folds (i # [Suc i..<n]) cv (srv, vlog) = (r, cv', s')"
    by (simp only: up s)
  from run_folds_Cons [OF this]
  consider
    (fails) e s1 where "(r, cv', s') = (Some e, cv, s1)"
  | (fold_done) d s1 where
      "(r, cv', s') = run_folds env me folds [Suc i..<n]
                (if cv_best_fold_dice cv < d
                 then cv\<lparr>cv_fold_dices := cv_fold_dices cv @ [d],
                         cv_best_fold_dice := d, cv_best_fold_idx := int i\<rparr>
                 else cv\<lparr>cv_fold_dices := cv_fold_dices cv @ [d]\<rparr>) s1"
    by blast
  then show ?case
  proof cases
    case fails
    then show ?thesis using Suc.prems(2,3) lt by simp
  next
    case fold_done
    let ?cv1 = "if cv_best_fold_dice cv < d
                 then cv\<lparr>cv_fold_dices := cv_fold_dices cv @ [d],
                         cv_best_fold_dice := d, cv_best_fold_idx := int i\<rparr>
                 else cv\<lparr>cv_fold_dices := cv_fold_dices cv @ [d]\<rparr>"
    have l1: "length (cv_fold_dices ?cv1) = Suc i" using Suc.prems(2) by simp
    have ok1: "idx_ok ?cv1" using Suc.prems(2,3) by (simp add: idx_ok_def)
    from Suc.hyps(1) [OF k fold_done [symmetric] l1 ok1] lt
    show ?thesis by auto
  qed
qed

lemma py_index_in_range:
  "- int (length xs) \<le> i \<Longrightarrow> i < int (length xs) \<Longrightarrow> \<exists>d. py_index xs i = Inr d"
  by (cases "0 \<le> i") (simp_all add: py_index_def)

lemma finalize_version_ok:
  assumes "fold_dices = [] \<or>
           (- int (length fold_dices) \<le> best_fold_idx \<and> best_fold_idx < int (length fold_dices))"
    and "finalize_version fmean srv version vlog fold_dices best_fold_idx status now = (r, srv')"
  shows "r = None"
    and "\<exists>vd d. map_of (versions srv') version = Some vd \<and>
           vd_log_file vd = Some (Log (finalized_log fmean vlog fold_dices best_fold_idx d status now)) \<and>
           (fold_dices \<noteq> [] \<longrightarrow> py_index fold_dices best_fold_idx = Inr d)"
    and "version \<in> set (map fst (versions srv'))"
    and "training_status srv' = training_status srv" "fold_files srv' = fold_files srv"
      "best_file srv' = best_file srv" "models srv' = models srv"
      "models_loaded srv' = models_loaded srv"
proof -
  obtain d where d: "fold_dices \<noteq> [] \<longrightarrow> py_index fold_dices best_fold_idx = Inr d"
    using assms(1) py_index_in_range [of fold_dices best_fold_idx]
    by (cases "fold_dices = []") auto
  let ?vd0 = "case map_of (versions srv) version of None \<Rightarrow> empty_version_dir | Some d \<Rightarrow> d"
  let ?vd1 = "?vd0\<lparr>vd_fold_files :=
                 copy_fold_files (fold_files srv) [0..<N_FOLDS] (vd_fold_files ?vd0)\<rparr>"
  let ?vd2 = "case best_file srv of None \<Rightarrow> ?vd1 | Some b \<Rightarrow> ?vd1\<lparr>vd_best_file := Some b\<rparr>"
  let ?vd3 = "?vd2\<lparr>vd_log_file :=
                 Some (Log (finalized_log fmean vlog fold_dices best_fold_idx d status now))\<rparr>"
  have res: "finalize_version fmean srv version vlog fold_dices best_fold_idx status now =
          (None, srv\<lparr>versions := AList.update version ?vd3 (versions srv)\<rparr>)"
    using d by (cases "fold_dices = []") (simp_all add: finalize_version_def Let_def finalized_log_def)
  with assms(2) have r: "r = None"
    and s: "srv' = srv\<lparr>versions := AList.update version ?vd3 (versions srv)\<rparr>"
    by simp_all
  show "r = None" by (rule r)
  have "map_of (versions srv') version = Some ?vd3" by (simp add: s update_conv')
  moreover have "vd_log_file ?vd3 =
      Some (Log (finalized_log fmean vlog fold_dices best_fold_idx d status now))" by simp
  ultimately show "\<exists>vd d. map_of (versions srv') version = Some vd \<and>
           vd_log_file vd = Some (Log (finalized_log fmean vlog fold_dices best_fold_idx d status now)) \<and>
           (fold_dices \<noteq> [] \<longrightarrow> py_index fold_dices best_fold_idx = Inr d)"
    using d by blast
  show "version \<in> set (map fst (versions srv'))"
    by (simp add: s update_keys del: set_map)
  show "training_status srv' = training_status srv" "fold_files srv' = fold_files srv"
      "best_file srv' = best_file srv" "models srv' = models srv"
      "models_loaded srv' = models_loaded srv"
    by (simp_all add: s)
qed

lemma idx_ok_index:
  assumes "idx_ok cv"
  shows "cv_fold_dices cv = [] \<or>
         (- int (length (cv_fold_dices cv)) \<le> cv_best_fold_idx cv \<and>
          cv_best_fold_idx cv < int (length (cv_fold_dices cv)))"
    and "cv_fold_dices cv = [] \<or>
         (- int (length (cv_fold_dices cv)) \<le> max (cv_best_fold_idx cv) 0 \<and>
          max (cv_best_fold_idx cv) 0 < int (length (cv_fold_dices cv)))"
  using assms by (cases "cv_fold_dices cv"; auto simp: idx_ok_def)+

lemma make_folds_N_FOLDS:
  "make_folds pairs (int N_FOLDS) =
     Inr (make_folds_loop N_FOLDS 0 pairs (replicate N_FOLDS []))"
  using make_folds_positive [of "int N_FOLDS" pairs] by (simp add: N_FOLDS_def)

text \<open>
  A run on enough pairs: the fold loop ends with an exception or without, and in both
  cases the one call of \<open>finalize_version\<close> that follows raises nothing.
\<close>

lemma train_model_cases:
  assumes enough: "MIN_IMAGES_FOR_TRAINING \<le> length pairs"
    and run: "train_model env srv pairs me = (res, srv')"
  shows "\<exists>r cv srv1 vlog1.
      run_folds env me (make_folds_loop N_FOLDS 0 (env_shuffle env pairs) (replicate N_FOLDS []))
        [0..<N_FOLDS] initial_cv
        (srv, create_version_log (get_next_version (map fst (versions srv))) pairs me 0 0
                (now_log_created env))
        = (r, cv, (srv1, vlog1)) \<and> idx_ok cv \<and>
      ((\<exists>e. r = Some e \<and> res = Inl e \<and>
           finalize_version (float_mean env) srv1 (get_next_version (map fst (versions srv))) vlog1
             (cv_fold_dices cv) (max (cv_best_fold_idx cv) 0)
             (if e = TrainingCancelled then ''cancelled'' else ''error'') (now_finalized env)
             = (None, srv')) \<or>
       (r = None \<and> length (cv_fold_dices cv) = N_FOLDS \<and>
        res = Inr (np_mean env (cv_fold_dices cv), get_next_version (map fst (versions srv))) \<and>
        finalize_version (float_mean env) (reload_model (promote_best srv1 cv))
          (get_next_version (map fst (versions srv))) vlog1
          (cv_fold_dices cv) (cv_best_fold_idx cv) ''completed'' (now_finalized env)
          = (None, srv')))"
proof -
  let ?v = "get_next_version (map fst (versions srv))"
  let ?log0 = "create_version_log ?v pairs me 0 0 (now_log_created env)"
  let ?folds = "make_folds_loop N_FOLDS 0 (env_shuffle env pairs) (replicate N_FOLDS [])"
  obtain r cv srv1 vlog1 where
    rf: "run_folds env me ?folds [0..<N_FOLDS] initial_cv (srv, ?log0) = (r, cv, (srv1, vlog1))"
    by (metis prod.exhaust)
  have ok0: "idx_ok initial_cv" "length (cv_fold_dices initial_cv) = 0"
    by (simp_all add: idx_ok_def initial_cv_def)
  from run_folds_idx [OF rf ok0(2) ok0(1)]
  have ok: "idx_ok cv" and len: "r = None \<longrightarrow> length (cv_fold_dices cv) = N_FOLDS"
    by simp_all
  show ?thesis
  proof (cases r)
    case (Some e)
    obtain fr fs where
      fin: "finalize_version (float_mean env) srv1 ?v vlog1 (cv_fold_dices cv) (max (cv_best_fold_idx cv) 0)
             (if e = TrainingCancelled then ''cancelled'' else ''error'') (now_finalized env)
             = (fr, fs)"
      by (metis prod.exhaust)
    have fr: "fr = None"
      by (rule finalize_version_ok(1) [OF idx_ok_index(2) [OF ok] fin])
    have "train_model env srv pairs me = (Inl e, fs)"
      using enough rf Some fin fr
      by (simp add: train_model_def Let_def make_folds_N_FOLDS finalize_and_raise_def
            initial_cv_def)
    with run have "res = Inl e" "fs = srv'" by simp_all
    with rf ok Some fin fr show ?thesis by blast
  next
    case None
    obtain fr fs where
      fin: "finalize_version (float_mean env) (reload_model (promote_best srv1 cv)) ?v vlog1
          (cv_fold_dices cv) (cv_best_fold_idx cv) ''completed'' (now_finalized env) = (fr, fs)"
      by (metis prod.exhaust)
    have fr: "fr = None"
      by (rule finalize_version_ok(1) [OF idx_ok_index(1) [OF ok] fin])
    have "train_model env srv pairs me = (Inr (np_mean env (cv_fold_dices cv), ?v), fs)"
      using enough rf None fin fr
      by (simp add: train_model_def Let_def make_folds_N_FOLDS promote_best_def
            initial_cv_def)
    with run have "res = Inr (np_mean env (cv_fold_dices cv), ?v)" "fs = srv'" by simp_all
    with rf ok None fin fr len show ?thesis by blast
  qed
qed


lemma list_all_versions_mem:
  assumes "name \<in> set (map fst vs)" "match_version name = Some m" "map_of vs name = Some vd"
  shows "summary_of name vd \<in> set (list_all_versions vs)"
proof -
  let ?g = "\<lambda>name. case match_version name of
                  None \<Rightarrow> None
                | Some m \<Rightarrow> map_option (summary_of name) (map_of vs name)"
  have "name \<in> set (sort (map fst vs))" using assms(1) by simp
  moreover have "?g name = Some (summary_of name vd)" using assms(2,3) by simp
  ultimately have "summary_of name vd \<in> set (List.map_filter ?g (sort (map fst vs)))"
    unfolding List.map_filter_def by force
  then show ?thesis by (simp add: list_all_versions_def)
qed

lemma match_version_next: "\<exists>m. match_version (get_next_version names) = Some m"
  by (simp add: get_next_version_def match_version_format)

lemma summary_of_finalized:
  assumes "vd_log_file vd = Some (Log (finalized_log fmean vlog fold_dices idx d status now))"
  shows "vs_version (summary_of name vd) = name" "vs_status (summary_of name vd) = status"
    "vs_completed_at (summary_of name vd) = Some now"
  using assms by (simp_all add: summary_of_def finalized_log_def)

lemma run_training_task_fields:
  "versions (run_training_task env srv pairs me) = versions (snd (train_model env srv pairs me))"
  "models (run_training_task env srv pairs me) = models (snd (train_model env srv pairs me))"
  "models_loaded (run_training_task env srv pairs me)
     = models_loaded (snd (train_model env srv pairs me))"
  "best_file (run_training_task env srv pairs me) = best_file (snd (train_model env srv pairs me))"
  "fold_files (run_training_task env srv pairs me) = fold_files (snd (train_model env srv pairs me))"
  by (simp_all add: run_training_task_def split: prod.splits sum.splits)

lemma run_training_task_status:
  "train_model env srv pairs me = (res, srv') \<Longrightarrow>
   ts_status (training_status (run_training_task env srv pairs me)) =
     (case res of Inr x \<Rightarrow> ''completed''
      | Inl e \<Rightarrow> if e = TrainingCancelled then ''cancelled'' else ''error'')"
  by (simp add: run_training_task_def split: prod.splits sum.splits)


text \<open>
  C3. A run on enough pairs (one that takes a version) ends completed, cancelled or in
  error, and whichever it is, \<open>list_all_versions\<close> afterwards has an entry for the
  version the run took, whose status is the status the orchestrator reports for the run
  and whose \<open>completed_at\<close> is the time of finalization.
\<close>

theorem finalize_on_every_exit:
  assumes "MIN_IMAGES_FOR_TRAINING \<le> length pairs"
  shows "\<exists>s. s \<in> set (list_all_versions (versions (run_training_task env srv pairs me))) \<and>
           vs_version s = get_next_version (map fst (versions srv)) \<and>
           vs_status s = ts_status (training_status (run_training_task env srv pairs me)) \<and>
           (vs_status s = ''completed'' \<or> vs_status s = ''cancelled'' \<or> vs_status s = ''error'') \<and>
           vs_completed_at s = Some (now_finalized env)"
proof -
  let ?v = "get_next_version (map fst (versions srv))"
  obtain res srv' where tm: "train_model env srv pairs me = (res, srv')"
    by (metis prod.exhaust)
  have vs: "versions (run_training_task env srv pairs me) = versions srv'"
    by (simp add: run_training_task_fields tm)
  note st = run_training_task_status [OF tm]
  obtain m where m: "match_version ?v = Some m" using match_version_next by blast
  from train_model_cases [OF assms tm]
  obtain r cv srv1 vlog1 where ok: "idx_ok cv" and
    alt: "(\<exists>e. r = Some e \<and> res = Inl e \<and>
           finalize_version (float_mean env) srv1 ?v vlog1
             (cv_fold_dices cv) (max (cv_best_fold_idx cv) 0)
             (if e = TrainingCancelled then ''cancelled'' else ''error'') (now_finalized env)
             = (None, srv')) \<or>
       (r = None \<and> length (cv_fold_dices cv) = N_FOLDS \<and>
        res = Inr (np_mean env (cv_fold_dices cv), ?v) \<and>
        finalize_version (float_mean env) (reload_model (promote_best srv1 cv)) ?v vlog1
          (cv_fold_dices cv) (cv_best_fold_idx cv) ''completed'' (now_finalized env)
          = (None, srv'))"
    by blast
  from alt show ?thesis
  proof (elim disjE exE conjE)
    fix e
    assume res: "res = Inl e" and
      fin: "finalize_version (float_mean env) srv1 ?v vlog1 (cv_fold_dices cv) (max (cv_best_fold_idx cv) 0)
             (if e = TrainingCancelled then ''cancelled'' else ''error'') (now_finalized env)
             = (None, srv')"
    let ?status = "if e = TrainingCancelled then ''cancelled'' else ''error''"
    from finalize_version_ok(2,3) [OF idx_ok_index(2) [OF ok] fin]
    obtain vd d where vd: "map_of (versions srv') ?v = Some vd"
      "vd_log_file vd = Some (Log (finalized_log (float_mean env) vlog1 (cv_fold_dices cv)
          (max (cv_best_fold_idx cv) 0) d ?status (now_finalized env)))"
      and mem: "?v \<in> set (map fst (versions srv'))"
      by blast
    have "summary_of ?v vd \<in> set (list_all_versions (versions srv'))"
      by (rule list_all_versions_mem [OF mem m vd(1)])
    moreover have "ts_status (training_status (run_training_task env srv pairs me)) = ?status"
      using st res by simp
    ultimately show ?thesis
      using summary_of_finalized [OF vd(2), of ?v] vs
      by (intro exI [of _ "summary_of ?v vd"]) auto
  next
    assume res: "res = Inr (np_mean env (cv_fold_dices cv), ?v)" and
      fin: "finalize_version (float_mean env) (reload_model (promote_best srv1 cv)) ?v vlog1
          (cv_fold_dices cv) (cv_best_fold_idx cv) ''completed'' (now_finalized env)
          = (None, srv')"
    from finalize_version_ok(2,3) [OF idx_ok_index(1) [OF ok] fin]
    obtain vd d where vd: "map_of (versions srv') ?v = Some vd"
      "vd_log_file vd = Some (Log (finalized_log (float_mean env) vlog1 (cv_fold_dices cv)
          (cv_best_fold_idx cv) d ''completed'' (now_finalized env)))"
      and mem: "?v \<in> set (map fst (versions srv'))"
      by blast
    have "summary_of ?v vd \<in> set (list_all_versions (versions srv'))"
      by (rule list_all_versions_mem [OF mem m vd(1)])
    moreover have "ts_status (training_status (run_training_task env srv pairs me)) = ''completed''"
      using st res by simp
    ultimately show ?thesis
      using summary_of_finalized [OF vd(2), of ?v] vs
      by (intro exI [of _ "summary_of ?v vd"]) auto
  qed
qed

theorem finalize_on_every_exit_witness:
  "MIN_IMAGES_FOR_TRAINING \<le> length example_pairs \<and>
   (\<exists>s. s \<in> set (list_all_versions (versions
            (run_training_task (example_env CancelSeen) (example_server ''running'')
               example_pairs 2))) \<and>
        vs_version s = ''v002'' \<and> vs_status s = ''cancelled'' \<and>
        vs_completed_at s = Some ''t2'')"
proof -
  have h: "MIN_IMAGES_FOR_TRAINING \<le> length example_pairs"
    by (simp add: MIN_IMAGES_FOR_TRAINING_def example_pairs_def)
  have v: "get_next_version (map fst (versions (example_server ''running''))) = ''v002''"
    by code_simp
  have st: "ts_status (training_status
      (run_training_task (example_env CancelSeen) (example_server ''running'') example_pairs 2))
     = ''cancelled''"
    by code_simp
  have n: "now_finalized (example_env CancelSeen) = ''t2''"
    by (simp add: example_env_def)
  from finalize_on_every_exit [OF h, of "example_env CancelSeen" "example_server ''running''" 2]
  show ?thesis unfolding v st n using h by blast
qed




section \<open>Training runs: a run that stops before any fold has finished\<close>













section \<open>Training runs: the promoted fold and the reported mean\<close>











end
